theory Spec2Isabelle
  imports Main "HOL-Library.Word" "HOL-Library.AList" "HOL-Library.Char_ord"
    "HOL-Library.List_Lexorder"
begin

section \<open>The fan-out proxy of pkg/store/proxy.go\<close>

text \<open>
  A shallow embedding of \<^verbatim>\<open>ProxyStore\<close>: the store filters (\<^verbatim>\<open>storeMatches\<close>,
  \<^verbatim>\<open>storeMatchDebugMetadata\<close>, \<^verbatim>\<open>labelSetsMatch\<close>), \<^verbatim>\<open>Series\<close> with its partial
  response strategies, \<^verbatim>\<open>Info\<close> and \<^verbatim>\<open>LabelValues\<close>.  Logging, tracing, metrics and
  the tenant header are left out: they change neither a returned value nor a response.
\<close>

subsection \<open>Labels and matchers (Prometheus model/labels)\<close>

text \<open>
  \<^verbatim>\<open>labels.Labels\<close> is a slice of name/value pairs; \<^verbatim>\<open>Get\<close> returns the value of the
  first label of that name and the empty string when there is none, \<^verbatim>\<open>Has\<close> says
  whether there is one.
\<close>

type_synonym Labels = "(string \<times> string) list"

fun Get :: "Labels \<Rightarrow> string \<Rightarrow> string" where
  "Get [] name = []"
| "Get ((n, v) # ls) name = (if n = name then v else Get ls name)"

fun Has :: "Labels \<Rightarrow> string \<Rightarrow> bool" where
  "Has [] name = False"
| "Has ((n, v) # ls) name = (if n = name then True else Has ls name)"

text \<open>
  \<^verbatim>\<open>labels.Matcher\<close>: the four match types; the compiled regular expression of a
  regexp matcher is the predicate \<open>re\<close>.
\<close>

datatype MatchType = MatchEqual | MatchNotEqual | MatchRegexp | MatchNotRegexp

record Matcher =
  Type :: MatchType
  Name :: string
  Value :: string
  re :: "string \<Rightarrow> bool"

definition Matches :: "Matcher \<Rightarrow> string \<Rightarrow> bool" where
  "Matches m s =
     (case Type m of
        MatchEqual \<Rightarrow> s = Value m
      | MatchNotEqual \<Rightarrow> s \<noteq> Value m
      | MatchRegexp \<Rightarrow> re m s
      | MatchNotRegexp \<Rightarrow> \<not> re m s)"

subsection \<open>Clients\<close>

type_synonym int64 = "64 word"

text \<open>
  The metadata of the \<^verbatim>\<open>Client\<close> interface: \<open>TimeRange\<close> is \<open>(mint, maxt)\<close>, \<open>Addr\<close> is
  \<open>(addr, isLocalClient)\<close>.  Times are \<^verbatim>\<open>int64\<close> and compared as signed numbers.
\<close>

record Client =
  String :: string
  LabelSets :: "Labels list"
  TimeRange :: "int64 \<times> int64"
  Addr :: "string \<times> bool"
  ReplicaKey :: string
  GroupKey :: string

subsection \<open>Store filters\<close>

text \<open>
  The inner loop of \<^verbatim>\<open>labelSetsMatch\<close>: \<open>notMatched\<close> becomes true at the first matcher
  whose name the label set has with a value the matcher rejects.
\<close>

fun notMatched :: "Matcher list \<Rightarrow> Labels \<Rightarrow> bool" where
  "notMatched [] ls = False"
| "notMatched (m # ms) ls =
     (if Has ls (Name m) \<and> \<not> Matches m (Get ls (Name m)) then True else notMatched ms ls)"

fun labelSetsLoop :: "Matcher list \<Rightarrow> Labels list \<Rightarrow> bool" where
  "labelSetsLoop matchers [] = False"
| "labelSetsLoop matchers (ls # lset) =
     (if \<not> notMatched matchers ls then True else labelSetsLoop matchers lset)"

definition labelSetsMatch :: "Matcher list \<Rightarrow> Labels list \<Rightarrow> bool" where
  "labelSetsMatch matchers lset =
     (if length lset = 0 then True else labelSetsLoop matchers lset)"

text \<open>
  \<^verbatim>\<open>storeMatchDebugMetadata\<close>: \<open>match\<close> accumulates the disjunction over the matcher
  groups, each tested against the one-label set \<open>__address__ = addr\<close>.
\<close>

fun debugMatchLoop :: "bool \<Rightarrow> Matcher list list \<Rightarrow> string \<Rightarrow> bool" where
  "debugMatchLoop match [] addr = match"
| "debugMatchLoop match (sm # sms) addr =
     debugMatchLoop (match \<or> labelSetsMatch sm [[(''__address__'', addr)]]) sms addr"

definition storeMatchDebugMetadata :: "Client \<Rightarrow> Matcher list list \<Rightarrow> bool" where
  "storeMatchDebugMetadata s storeDebugMatchers =
     (if length storeDebugMatchers = 0 then True
      else case Addr s of (addr, isLocal) \<Rightarrow>
        if isLocal then False
        else if \<not> debugMatchLoop False storeDebugMatchers addr then False
        else True)"

text \<open>
  The request context, as far as the proxy reads it: the value under
  \<^verbatim>\<open>StoreMatcherKey\<close>, absent or a list of matcher groups.
\<close>

record Context =
  StoreMatcherKey :: "Matcher list list option"

text \<open>
  Lines 479-484: the matcher groups \<^verbatim>\<open>storeMatches\<close> reads from the context, the
  nil slice when the context carries none.
\<close>

definition storeDebugMatcher :: "Context \<Rightarrow> Matcher list list" where
  "storeDebugMatcher ctx = (case StoreMatcherKey ctx of None \<Rightarrow> [] | Some v \<Rightarrow> v)"

text \<open>
  \<^verbatim>\<open>storeMatches\<close>; the reason it returns beside the verdict is a text for the debug
  log and is left out.
\<close>

definition storeMatches :: "Context \<Rightarrow> Client \<Rightarrow> int64 \<Rightarrow> int64 \<Rightarrow> Matcher list \<Rightarrow> bool" where
  "storeMatches ctx s mint maxt matchers =
     (case TimeRange s of (storeMinTime, storeMaxTime) \<Rightarrow>
        if storeMaxTime <s mint \<or> maxt <s storeMinTime then False
        else if \<not> storeMatchDebugMetadata s (storeDebugMatcher ctx) then False
        else if \<not> labelSetsMatch matchers (LabelSets s) then False
        else True)"

subsection \<open>Errors, requests and responses\<close>

text \<open>
  A Go error is either a gRPC status (\<^verbatim>\<open>status.Error(code, msg)\<close>) or any other error,
  kept as its message.  \<open>Error\<close> is the method \<^verbatim>\<open>err.Error()\<close>.
\<close>

datatype Code = InvalidArgument | Aborted | Unknown

datatype error = StatusError Code string | ErrorString string

fun CodeString :: "Code \<Rightarrow> string" where
  "CodeString InvalidArgument = ''InvalidArgument''"
| "CodeString Aborted = ''Aborted''"
| "CodeString Unknown = ''Unknown''"

fun Error :: "error \<Rightarrow> string" where
  "Error (StatusError c msg) = ''rpc error: code = '' @ CodeString c @ '' desc = '' @ msg"
| "Error (ErrorString msg) = msg"

text \<open>
  How a call ends when it does not return nil: it returns an error, or a run-time panic
  unwinds it.
\<close>

datatype exit = Return error | Panic

datatype PartialResponseStrategy = WARN | ABORT | GROUP_REPLICA

text \<open>
  \<^verbatim>\<open>storepb.SeriesRequest\<close>.  A \<^verbatim>\<open>storepb.LabelMatcher\<close> carries the type, name and
  value of a \<^verbatim>\<open>labels.Matcher\<close>, so the record \<open>Matcher\<close> stands for both; the
  conversions between them stay parameters (\<open>Externals\<close> below).  The fields the proxy
  copies into the sub-request without reading them (aggregates, resolution window,
  skip-chunks, hints, shard info, replica labels) are not listed.
\<close>

record SeriesRequest =
  MinTime :: int64
  MaxTime :: int64
  Matchers :: "Matcher list"
  PartialResponseDisabled :: bool
  PartialResponseStrategy :: PartialResponseStrategy

text \<open>\<^verbatim>\<open>storepb.SeriesResponse\<close>: a series frame, a warning or a hints frame.\<close>

datatype SeriesResponse =
    SeriesFrame Labels "nat list"
  | WarningFrame string
  | HintsFrame string

fun GetWarning :: "SeriesResponse \<Rightarrow> string" where
  "GetWarning (WarningFrame w) = w"
| "GetWarning _ = []"

definition NewWarnSeriesResponse :: "error \<Rightarrow> SeriesResponse" where
  "NewWarnSeriesResponse err = WarningFrame (Error err)"

text \<open>
  The outbound stream \<^verbatim>\<open>srv\<close>: its context, and for the \<open>n\<close>-th call of \<^verbatim>\<open>Send\<close>
  (counted from 0) the error it returns, if any.  A request ends at the first failed
  send, so the index of a call is the number of responses sent so far.
\<close>

record Server =
  Context :: Context
  sendErr :: "nat \<Rightarrow> error option"

subsection \<open>The proxy and its collaborators\<close>

text \<open>
  \<open>stores\<close> is the snapshot that \<^verbatim>\<open>s.stores()\<close> returns for the request;
  \<open>tsdbSelector\<close> is \<^verbatim>\<open>s.tsdbSelector.MatchLabelSets\<close>, returning whether the store
  matches and the extra label sets to match in the sub-request.
\<close>

record ProxyStore =
  stores :: "Client list"
  selectorLabels :: Labels
  tsdbSelector :: "Labels list \<Rightarrow> bool \<times> Labels list"

text \<open>
  Functions of the repository that the proxy calls and that lie outside proxy.go are
  parameters.  \<open>matchesExternalLabels\<close> returns \<open>(match, matchers, err)\<close>.
  \<open>newAsyncRespSet\<close> returns the Go pair \<open>(respSet, err)\<close> for a store and the
  sub-request; \<open>'rs\<close> is the type of response sets, and \<open>respSet\<close>, a value of an
  interface type, is \<open>None\<close> when it is nil.  \<open>mergedResponses\<close> is the sequence
  of responses that \<^verbatim>\<open>NewResponseDeduplicator(NewProxyResponseLoserTree(...))\<close> yields
  through \<^verbatim>\<open>Next\<close> and \<^verbatim>\<open>At\<close> until \<^verbatim>\<open>Next\<close> returns false; the streams are taken to
  end, so it is a list.
\<close>

record 'rs Externals =
  matchesExternalLabels :: "Matcher list \<Rightarrow> Labels \<Rightarrow> bool \<times> Matcher list \<times> error option"
  PromMatchersToMatchers :: "Matcher list \<Rightarrow> Matcher list"
  MatchersForLabelSets :: "Labels list \<Rightarrow> Matcher list"
  newAsyncRespSet :: "Client \<Rightarrow> SeriesRequest \<Rightarrow> 'rs option \<times> error option"
  mergedResponses :: "'rs list \<Rightarrow> SeriesResponse list"

subsection \<open>Group and replica counters\<close>

text \<open>
  \<^verbatim>\<open>map[string]map[string]int\<close> as an association list of association lists.
  \<open>inner mp key1\<close> is \<^verbatim>\<open>mp[key1]\<close> (the nil map when the key is absent, of length 0),
  \<open>counter mp key1 key2\<close> is \<^verbatim>\<open>mp[key1][key2]\<close> (0 when absent).
\<close>

type_synonym counters = "(string \<times> (string \<times> nat) list) list"

definition inner :: "counters \<Rightarrow> string \<Rightarrow> (string \<times> nat) list" where
  "inner mp key1 = (case map_of mp key1 of None \<Rightarrow> [] | Some m \<Rightarrow> m)"

definition counter :: "counters \<Rightarrow> string \<Rightarrow> string \<Rightarrow> nat" where
  "counter mp key1 key2 = (case map_of (inner mp key1) key2 of None \<Rightarrow> 0 | Some c \<Rightarrow> c)"

definition bumpCounter :: "string \<Rightarrow> string \<Rightarrow> counters \<Rightarrow> counters" where
  "bumpCounter key1 key2 mp =
     (let mp1 = (if map_of mp key1 = None then AList.update key1 [] mp else mp)
      in AList.update key1
           (AList.update key2 (counter mp1 key1 key2 + 1) (inner mp1 key1)) mp1)"

text \<open>The counters after one \<open>bumpCounter\<close> for each store of a list.\<close>

definition bumpAll :: "Client list \<Rightarrow> counters \<Rightarrow> counters" where
  "bumpAll sts mp = fold (\<lambda>st. bumpCounter (GroupKey st) (ReplicaKey st)) sts mp"

subsection \<open>Series\<close>

text \<open>
  What \<^verbatim>\<open>Series\<close> has done so far: the failure counters, the response sets
  registered for the merge, the responses sent to the caller, and the stores for which
  \<^verbatim>\<open>newAsyncRespSet\<close> was called.
\<close>

record 'rs SeriesState =
  failedStores :: counters
  totalFailedStores :: nat
  storeResponses :: "'rs list"
  sent :: "SeriesResponse list"
  queried :: "Client list"

definition initState :: "'rs SeriesState" where
  "initState =
     \<lparr>failedStores = [], totalFailedStores = 0, storeResponses = [], sent = [], queried = []\<rparr>"

text \<open>The loop over the snapshot that selects the stores to query (lines 359-378).\<close>

fun selectStores ::
  "ProxyStore \<Rightarrow> Context \<Rightarrow> int64 \<Rightarrow> int64 \<Rightarrow> Matcher list \<Rightarrow> Client list \<Rightarrow>
   Client list \<times> Labels list \<times> counters \<Rightarrow> Client list \<times> Labels list \<times> counters" where
  "selectStores s ctx mint maxt matchers [] acc = acc"
| "selectStores s ctx mint maxt matchers (st # sts) (sel, storeLabelSets, groupReplicaStores) =
     (if \<not> storeMatches ctx st mint maxt matchers
      then selectStores s ctx mint maxt matchers sts (sel, storeLabelSets, groupReplicaStores)
      else case tsdbSelector s (LabelSets st) of (matches, extraMatchers) \<Rightarrow>
        if \<not> matches
        then selectStores s ctx mint maxt matchers sts (sel, storeLabelSets, groupReplicaStores)
        else selectStores s ctx mint maxt matchers sts
               (sel @ [st], storeLabelSets @ extraMatchers,
                bumpCounter (GroupKey st) (ReplicaKey st) groupReplicaStores))"

definition checkGroupReplicaErrors ::
  "counters \<Rightarrow> counters \<Rightarrow> Client \<Rightarrow> error \<Rightarrow> error option" where
  "checkGroupReplicaErrors groupReplicaStores failed st err =
     (if length (inner failed (GroupKey st)) > 1 then Some err
      else if length (inner groupReplicaStores (GroupKey st)) = 1
              \<and> counter failed (GroupKey st) (ReplicaKey st) > 1 then Some err
      else None)"

text \<open>Lines 427-428: the failure of \<open>st\<close> is counted, whatever the strategy.\<close>

definition noteFailure :: "Client \<Rightarrow> 'rs SeriesState \<Rightarrow> 'rs SeriesState" where
  "noteFailure st \<sigma> =
     \<sigma>\<lparr>failedStores := bumpCounter (GroupKey st) (ReplicaKey st) (failedStores \<sigma>),
       totalFailedStores := totalFailedStores \<sigma> + 1\<rparr>"

text \<open>
  The loop that opens the response sets (lines 417-445).  The result is how
  \<^verbatim>\<open>Series\<close> ends inside the loop, if it does, and the state.  In the
  \<^verbatim>\<open>GROUP_REPLICA\<close> branch a tolerated failure leaves the \<^verbatim>\<open>if\<close> without
  \<^verbatim>\<open>continue\<close>, so lines 443-444 are reached with the response set that came with
  the error.  Line 444 is \<^verbatim>\<open>defer respSet.Close()\<close>: for a nil \<^verbatim>\<open>respSet\<close> the
  method value cannot be taken and the statement panics (the nil that line 443 has
  appended before is read by nothing and is not kept in the state).
\<close>

fun openStores ::
  "'rs Externals \<Rightarrow> Server \<Rightarrow> SeriesRequest \<Rightarrow> counters \<Rightarrow> Client list \<Rightarrow>
   'rs SeriesState \<Rightarrow> exit option \<times> 'rs SeriesState" where
  "openStores ext srv r groupReplicaStores [] \<sigma> = (None, \<sigma>)"
| "openStores ext srv r groupReplicaStores (st # sts) \<sigma> =
     (case newAsyncRespSet ext st r of
        (respSet, Some err) \<Rightarrow>
          (let \<sigma>1 = noteFailure st (\<sigma>\<lparr>queried := queried \<sigma> @ [st]\<rparr>) in
           if PartialResponseStrategy r = GROUP_REPLICA then
             (if checkGroupReplicaErrors groupReplicaStores (failedStores \<sigma>1) st err \<noteq> None
              then (Some (Return err), \<sigma>1)
              else (case respSet of
                      None \<Rightarrow> (Some Panic, \<sigma>1)
                    | Some rs \<Rightarrow>
                        openStores ext srv r groupReplicaStores sts
                          (\<sigma>1\<lparr>storeResponses := storeResponses \<sigma>1 @ [rs]\<rparr>)))
           else if \<not> PartialResponseDisabled r \<or> PartialResponseStrategy r = WARN then
             (case sendErr srv (length (sent \<sigma>1)) of
                Some err' \<Rightarrow> (Some (Return err'), \<sigma>1)
              | None \<Rightarrow>
                  openStores ext srv r groupReplicaStores sts
                    (\<sigma>1\<lparr>sent := sent \<sigma>1 @ [NewWarnSeriesResponse err]\<rparr>))
           else (Some (Return err), \<sigma>1))
      | (respSet, None) \<Rightarrow>
          (case respSet of
             None \<Rightarrow> (Some Panic, \<sigma>\<lparr>queried := queried \<sigma> @ [st]\<rparr>)
           | Some rs \<Rightarrow>
               openStores ext srv r groupReplicaStores sts
                 (\<sigma>\<lparr>queried := queried \<sigma> @ [st],
                    storeResponses := storeResponses \<sigma> @ [rs]\<rparr>)))"

text \<open>
  Lines 453-467: what a response pulled from the merged stream does before it is sent.
  The result is the error \<^verbatim>\<open>Series\<close> returns with, if any, and the new value of
  \<^verbatim>\<open>totalFailedStores\<close>.
\<close>

definition onWarning :: "SeriesRequest \<Rightarrow> nat \<Rightarrow> SeriesResponse \<Rightarrow> error option \<times> nat" where
  "onWarning r failed0 resp =
     (if GetWarning resp \<noteq> [] then
        (let failed1 = failed0 + 1 in
         if PartialResponseStrategy r = GROUP_REPLICA then
           (if failed1 > 1 then (Some (StatusError Aborted (GetWarning resp)), failed1)
            else (None, failed1))
         else if PartialResponseDisabled r \<or> PartialResponseStrategy r = ABORT then
           (Some (StatusError Aborted (GetWarning resp)), failed1)
         else (None, failed1))
      else (None, failed0))"

text \<open>The loop over the merged stream (lines 450-472).\<close>

fun streamLoop ::
  "Server \<Rightarrow> SeriesRequest \<Rightarrow> SeriesResponse list \<Rightarrow> 'rs SeriesState \<Rightarrow>
   error option \<times> 'rs SeriesState" where
  "streamLoop srv r [] \<sigma> = (None, \<sigma>)"
| "streamLoop srv r (resp # rest) \<sigma> =
     (case onWarning r (totalFailedStores \<sigma>) resp of
        (Some err, failed1) \<Rightarrow> (Some err, \<sigma>\<lparr>totalFailedStores := failed1\<rparr>)
      | (None, failed1) \<Rightarrow>
          (case sendErr srv (length (sent \<sigma>)) of
             Some err \<Rightarrow>
               (Some (StatusError Unknown (''send series response: '' @ Error err)),
                \<sigma>\<lparr>totalFailedStores := failed1\<rparr>)
           | None \<Rightarrow>
               streamLoop srv r rest
                 (\<sigma>\<lparr>totalFailedStores := failed1, sent := sent \<sigma> @ [resp]\<rparr>)))"

text \<open>
  \<^verbatim>\<open>Series\<close>: how it ends (\<open>None\<close> when it returns nil) and the final state.
\<close>

definition Series ::
  "'rs Externals \<Rightarrow> ProxyStore \<Rightarrow> SeriesRequest \<Rightarrow> Server \<Rightarrow> exit option \<times> 'rs SeriesState" where
  "Series ext s originalRequest srv =
     (case matchesExternalLabels ext (Matchers originalRequest) (selectorLabels s) of
        (match, matchers, Some err) \<Rightarrow>
          (Some (Return (StatusError InvalidArgument (Error err))), initState)
      | (match, matchers, None) \<Rightarrow>
          if \<not> match then (None, initState)
          else if length matchers = 0 then
            (Some (Return (StatusError InvalidArgument
                     ''no matchers specified (excluding selector labels)'')), initState)
          else
            (let storeMatchers = PromMatchersToMatchers ext matchers;
                 r = originalRequest\<lparr>Matchers := storeMatchers\<rparr>;
                 ctx = Context srv
             in case selectStores s ctx (MinTime originalRequest) (MaxTime originalRequest)
                       matchers (stores s) ([], [], []) of
                  (sel, storeLabelSets, groupReplicaStores) \<Rightarrow>
                    if length sel = 0 then (None, initState)
                    else
                      (let r1 = r\<lparr>Matchers := Matchers r @ MatchersForLabelSets ext storeLabelSets\<rparr>
                       in case openStores ext srv r1 groupReplicaStores sel initState of
                            (Some ending, \<sigma>) \<Rightarrow> (Some ending, \<sigma>)
                          | (None, \<sigma>) \<Rightarrow>
                              (case streamLoop srv r1 (mergedResponses ext (storeResponses \<sigma>)) \<sigma> of
                                 (Some err, \<sigma>') \<Rightarrow> (Some (Return err), \<sigma>')
                               | (None, \<sigma>') \<Rightarrow> (None, \<sigma>')))))"

subsection \<open>Info\<close>

text \<open>
  Modelled from the spec: \<^verbatim>\<open>labelpb.ExtendSortedLabels\<close> lies outside proxy.go.  By the
  spec a label set is a sequence of name/value pairs sorted by name, and
  \<open>label_sets \<oplus> selector_labels\<close> is the element-wise merge of a label set with the
  selector labels in which the selector wins on conflict: the labels of the set whose
  names the selector labels do not have, and the selector labels, sorted by name.
\<close>

definition ExtendSortedLabels :: "Labels \<Rightarrow> Labels \<Rightarrow> Labels" where
  "ExtendSortedLabels lset ext =
     sort_key fst (filter (\<lambda>l. \<not> Has ext (fst l)) lset @ ext)"

text \<open>
  \<^verbatim>\<open>storepb.InfoResponse\<close> without the store type, which is the constant of the
  component.
\<close>

record InfoResponse =
  InfoLabels :: Labels
  InfoMinTime :: int64
  InfoMaxTime :: int64
  InfoLabelSets :: "Labels list"

definition MaxInt64 :: int64 where
  "MaxInt64 = 0x7FFFFFFFFFFFFFFF"

text \<open>Lines 195-203: the loop over the stores that narrows \<open>minTime\<close> and widens \<open>maxTime\<close>.\<close>

fun timeRangeLoop :: "Client list \<Rightarrow> int64 \<times> int64 \<Rightarrow> int64 \<times> int64" where
  "timeRangeLoop [] (minTime, maxTime) = (minTime, maxTime)"
| "timeRangeLoop (st # sts) (minTime, maxTime) =
     (case TimeRange st of (mint, maxt) \<Rightarrow>
        timeRangeLoop sts
          (if mint <s minTime then mint else minTime,
           if maxTime <s maxt then maxt else maxTime))"

text \<open>
  Lines 208-214: the map \<^verbatim>\<open>labelSets\<close> from the hash of a merged label set to the label
  set, as an association list.  The hash function of \<^verbatim>\<open>labels.Labels\<close> is the
  parameter \<open>hash\<close>.
\<close>

type_synonym uint64 = "64 word"

fun mergeLabelSets ::
  "(Labels \<Rightarrow> uint64) \<Rightarrow> Labels \<Rightarrow> Labels list \<Rightarrow> (uint64 \<times> Labels) list \<Rightarrow>
   (uint64 \<times> Labels) list" where
  "mergeLabelSets hash sel [] labelSets = labelSets"
| "mergeLabelSets hash sel (lset # lsets) labelSets =
     (let mergedLabelSet = ExtendSortedLabels lset sel
      in mergeLabelSets hash sel lsets
           (AList.update (hash mergedLabelSet) mergedLabelSet labelSets))"

fun storesLabelSets ::
  "(Labels \<Rightarrow> uint64) \<Rightarrow> Labels \<Rightarrow> Client list \<Rightarrow> (uint64 \<times> Labels) list \<Rightarrow>
   (uint64 \<times> Labels) list" where
  "storesLabelSets hash sel [] labelSets = labelSets"
| "storesLabelSets hash sel (st # sts) labelSets =
     storesLabelSets hash sel sts (mergeLabelSets hash sel (LabelSets st) labelSets)"

text \<open>
  \<^verbatim>\<open>Info\<close>.  Go leaves the order in which a map is ranged over open; the model lists
  the label sets in the order of the association list, and the properties below speak
  of the set of announced label sets only.
\<close>

definition Info :: "(Labels \<Rightarrow> uint64) \<Rightarrow> ProxyStore \<Rightarrow> InfoResponse" where
  "Info hash s =
     (let res = \<lparr>InfoLabels = selectorLabels s, InfoMinTime = 0, InfoMaxTime = 0,
                 InfoLabelSets = []\<rparr>
      in if length (stores s) = 0 then res\<lparr>InfoMaxTime := 0, InfoMinTime := 0\<rparr>
         else case timeRangeLoop (stores s) (MaxInt64, 0) of (minTime, maxTime) \<Rightarrow>
           (let res1 = res\<lparr>InfoMaxTime := maxTime, InfoMinTime := minTime\<rparr>;
                labelSets = storesLabelSets hash (selectorLabels s) (stores s) [];
                res2 = res1\<lparr>InfoLabelSets := map snd labelSets\<rparr>
            in if length (InfoLabelSets res2) = 0 \<and> length (InfoLabels res2) > 0
               then res2\<lparr>InfoLabelSets := InfoLabelSets res2 @ [InfoLabels res2]\<rparr>
               else res2))"

text \<open>
  The label sets the stores of a snapshot announce, each merged with the selector
  labels; and the invariant of the map: every key is the hash of its label set.
\<close>

definition announced :: "Client list \<Rightarrow> Labels \<Rightarrow> Labels set" where
  "announced sts sel = (\<lambda>l. ExtendSortedLabels l sel) ` (\<Union>st \<in> set sts. set (LabelSets st))"

definition hashed :: "(Labels \<Rightarrow> uint64) \<Rightarrow> (uint64 \<times> Labels) list \<Rightarrow> bool" where
  "hashed hash m \<longleftrightarrow> (\<forall>(k, v) \<in> set m. k = hash v)"

subsection \<open>LabelValues\<close>

record LabelValuesRequest =
  Label :: string
  LabelValuesPartialResponseDisabled :: bool
  Start :: int64
  End :: int64
  LabelValuesMatchers :: "Matcher list"

record LabelValuesResponse =
  Values :: "string list"
  Warnings :: "string list"

text \<open>
  The collaborators of \<^verbatim>\<open>LabelValues\<close> outside proxy.go: the unary call
  \<^verbatim>\<open>st.LabelValues\<close> of a store, returning the Go pair of response and error,
  \<^verbatim>\<open>MatchersForLabelSets\<close> and \<^verbatim>\<open>strutil.MergeUnsortedSlices\<close>.
\<close>

record LabelValuesExternals =
  storeLabelValues :: "Client \<Rightarrow> LabelValuesRequest \<Rightarrow> LabelValuesResponse \<times> error option"
  labelSetMatchers :: "Labels list \<Rightarrow> Matcher list"
  MergeUnsortedSlices :: "string list list \<Rightarrow> string list"

text \<open>\<^verbatim>\<open>errors.Wrapf(err, "fetch label values from store %s", st)\<close>.\<close>

definition wrapFetch :: "error \<Rightarrow> Client \<Rightarrow> error" where
  "wrapFetch err st =
     ErrorString (''fetch label values from store '' @ String st @ '': '' @ Error err)"

text \<open>
  What \<^verbatim>\<open>LabelValues\<close> returns and does: the response or the error, how often it took
  a snapshot of the stores, and the stores whose \<^verbatim>\<open>LabelValues\<close> it called.
\<close>

record LabelValuesResult =
  response :: "LabelValuesResponse option"
  failure :: "error option"
  snapshots :: nat
  called :: "Client list"

text \<open>
  The loop over the snapshot (lines 665-728).  The calls run in goroutines of an
  errgroup; the model runs them in the order of the snapshot, which fixes the order of
  the warnings and makes the error of \<^verbatim>\<open>g.Wait\<close> the first one in that order.  The
  accumulator holds the stores called, \<^verbatim>\<open>warnings\<close>, \<^verbatim>\<open>all\<close> and that error.
\<close>

fun labelValuesFanOut ::
  "LabelValuesExternals \<Rightarrow> ProxyStore \<Rightarrow> Context \<Rightarrow> LabelValuesRequest \<Rightarrow> Client list \<Rightarrow>
   Client list \<times> string list \<times> string list list \<times> error option \<Rightarrow>
   Client list \<times> string list \<times> string list list \<times> error option" where
  "labelValuesFanOut ext s gctx r [] acc = acc"
| "labelValuesFanOut ext s gctx r (st # sts) (cs, warnings, vals, waitErr) =
     (if \<not> storeMatches gctx st (Start r) (End r) []
      then labelValuesFanOut ext s gctx r sts (cs, warnings, vals, waitErr)
      else case tsdbSelector s (LabelSets st) of (matches, extraMatchers) \<Rightarrow>
        if \<not> matches then labelValuesFanOut ext s gctx r sts (cs, warnings, vals, waitErr)
        else
          (case storeLabelValues ext st
                  (r\<lparr>LabelValuesMatchers :=
                       LabelValuesMatchers r @ labelSetMatchers ext extraMatchers\<rparr>) of
             (resp, Some err) \<Rightarrow>
               (let err1 = wrapFetch err st in
                if LabelValuesPartialResponseDisabled r
                then labelValuesFanOut ext s gctx r sts
                       (cs @ [st], warnings, vals,
                        (case waitErr of None \<Rightarrow> Some err1 | Some e \<Rightarrow> Some e))
                else labelValuesFanOut ext s gctx r sts
                       (cs @ [st], warnings @ [Error (wrapFetch err1 st)], vals, waitErr))
           | (resp, None) \<Rightarrow>
               labelValuesFanOut ext s gctx r sts
                 (cs @ [st], warnings @ Warnings resp, vals @ [Values resp], waitErr)))"

definition LabelValues ::
  "LabelValuesExternals \<Rightarrow> ProxyStore \<Rightarrow> Context \<Rightarrow> LabelValuesRequest \<Rightarrow> LabelValuesResult" where
  "LabelValues ext s ctx r =
     (if Label r = [] then
        \<lparr>response = None,
         failure = Some (StatusError InvalidArgument ''label name parameter cannot be empty''),
         snapshots = 0, called = []\<rparr>
      else case labelValuesFanOut ext s ctx r (stores s) ([], [], [], None) of
        (cs, warnings, vals, Some err) \<Rightarrow>
          \<lparr>response = None, failure = Some err, snapshots = 1, called = cs\<rparr>
      | (cs, warnings, vals, None) \<Rightarrow>
          \<lparr>response = Some \<lparr>Values = MergeUnsortedSlices ext vals, Warnings = warnings\<rparr>,
           failure = None, snapshots = 1, called = cs\<rparr>)"

subsection \<open>Concrete instances\<close>

text \<open>
  Modelled from the spec: \<^verbatim>\<open>matchesExternalLabels\<close> lies outside proxy.go.  By the
  spec the request matchers are reduced against the selector labels: matchers that are
  inconsistent with the selector labels give no match, and otherwise the matchers on
  selector labels are stripped.  It is used for the concrete scenarios only; the
  theorems about \<open>Series\<close> hold for every \<open>matchesExternalLabels\<close>.
\<close>

definition matchesExternalLabels_spec ::
  "Matcher list \<Rightarrow> Labels \<Rightarrow> bool \<times> Matcher list \<times> error option" where
  "matchesExternalLabels_spec ms externalLabels =
     (if \<exists>m \<in> set ms. Has externalLabels (Name m) \<and> \<not> Matches m (Get externalLabels (Name m))
      then (False, [], None)
      else (True, filter (\<lambda>m. \<not> Has externalLabels (Name m)) ms, None))"

text \<open>
  A set of collaborators for scenarios: a response set is the list of responses of its
  stream, \<open>opens\<close> gives the outcome of opening each store, the merged stream is the
  concatenation of the registered streams, and the TSDB selector adds no matcher.
\<close>

definition scenarioExternals ::
  "(Client \<Rightarrow> SeriesResponse list option \<times> error option) \<Rightarrow>
   (SeriesResponse list) Externals" where
  "scenarioExternals opens =
     \<lparr>matchesExternalLabels = matchesExternalLabels_spec,
      PromMatchersToMatchers = (\<lambda>ms. ms),
      MatchersForLabelSets = (\<lambda>lsets. []),
      newAsyncRespSet = (\<lambda>st r. opens st),
      mergedResponses = concat\<rparr>"

definition equalMatcher :: "string \<Rightarrow> string \<Rightarrow> Matcher" where
  "equalMatcher n v = \<lparr>Type = MatchEqual, Name = n, Value = v, re = (\<lambda>s. False)\<rparr>"

text \<open>
  A store without external labels that has data for the times 0 to 1000, and such a
  remote store as the replica \<open>r\<close> of the group \<open>g\<close>.
\<close>

definition storeAt :: "string \<Rightarrow> bool \<Rightarrow> Client" where
  "storeAt addr isLocal =
     \<lparr>String = addr, LabelSets = [], TimeRange = (0, 1000), Addr = (addr, isLocal),
      ReplicaKey = addr, GroupKey = addr\<rparr>"

definition replica :: "string \<Rightarrow> string \<Rightarrow> Client" where
  "replica g r = (storeAt r False)\<lparr>ReplicaKey := r, GroupKey := g\<rparr>"

definition scenarioProxy :: "Client list \<Rightarrow> Labels \<Rightarrow> ProxyStore" where
  "scenarioProxy sts sel =
     \<lparr>stores = sts, selectorLabels = sel, tsdbSelector = (\<lambda>lsets. (True, []))\<rparr>"

definition scenarioRequest :: "Matcher list \<Rightarrow> bool \<Rightarrow> PartialResponseStrategy \<Rightarrow> SeriesRequest" where
  "scenarioRequest ms disabled strategy =
     \<lparr>MinTime = 0, MaxTime = 100, Matchers = ms,
      PartialResponseDisabled = disabled, PartialResponseStrategy = strategy\<rparr>"

text \<open>
  Opening a store fails with the error \<open>down\<close> for the replicas listed, with \<open>rs\<close> as
  the response set that comes with the error (\<open>None\<close> for nil), and gives a stream of
  one series for the others.
\<close>

definition failing ::
  "SeriesResponse list option \<Rightarrow> string list \<Rightarrow> Client \<Rightarrow>
   SeriesResponse list option \<times> error option" where
  "failing rs down st =
     (if ReplicaKey st \<in> set down then (rs, Some (ErrorString ''down''))
      else (Some [SeriesFrame [(''a'', ''1'')] [1]], None))"

text \<open>An outbound stream without address matchers on which every send succeeds.\<close>

definition scenarioServer :: Server where
  "scenarioServer = \<lparr>Context = \<lparr>StoreMatcherKey = None\<rparr>, sendErr = (\<lambda>n. None)\<rparr>"

text \<open>
  For the scenarios of \<open>Info\<close>: a store with a time range and label sets, and the length
  of a label set in the place of its hash.
\<close>

definition storeWith :: "string \<Rightarrow> int64 \<times> int64 \<Rightarrow> Labels list \<Rightarrow> Client" where
  "storeWith name tr lsets = (storeAt name False)\<lparr>TimeRange := tr, LabelSets := lsets\<rparr>"

definition lengthHash :: "Labels \<Rightarrow> uint64" where
  "lengthHash ls = of_nat (length ls)"

text \<open>For the scenarios of \<open>LabelValues\<close>: every store answers with the value \<open>v\<close>.\<close>

definition scenarioLabelValues :: LabelValuesExternals where
  "scenarioLabelValues =
     \<lparr>storeLabelValues = (\<lambda>st r. (\<lparr>Values = [''v''], Warnings = []\<rparr>, None)),
      labelSetMatchers = (\<lambda>lsets. []),
      MergeUnsortedSlices = (\<lambda>vals. remdups (concat vals))\<rparr>"

section \<open>Properties\<close>

subsection \<open>The store filters\<close>

lemma notMatched_iff:
  "notMatched ms ls \<longleftrightarrow> (\<exists>m \<in> set ms. Has ls (Name m) \<and> \<not> Matches m (Get ls (Name m)))"
  by (induction ms) auto

lemma labelSetsLoop_iff:
  "labelSetsLoop ms lset \<longleftrightarrow> (\<exists>ls \<in> set lset. \<not> notMatched ms ls)"
  by (induction lset) auto

text \<open>
  C7.  The external-label filter accepts a backend iff its list of label sets is empty
  or some label set of the list is failed by no matcher, where a matcher fails a label
  set iff the set has the matcher's name and the value stored under it does not
  satisfy the matcher.
\<close>

theorem labelSetsMatch_accepts_iff:
  "labelSetsMatch matchers lset \<longleftrightarrow>
     lset = [] \<or>
     (\<exists>ls \<in> set lset. \<forall>m \<in> set matchers.
        \<not> (Has ls (Name m) \<and> \<not> Matches m (Get ls (Name m))))"
  by (auto simp: labelSetsMatch_def labelSetsLoop_iff notMatched_iff)

text \<open>
  The matcher \<open>env = prod\<close> accepts a backend one of whose label sets has no \<open>env\<close>,
  rejects a backend whose only label set has \<open>env = dev\<close>, and accepts a backend that
  announces no label set.
\<close>

theorem labelSetsMatch_accepts_iff_witness:
  "labelSetsMatch [equalMatcher ''env'' ''prod''] [[(''env'', ''dev'')], [(''zone'', ''a'')]] \<and>
   \<not> labelSetsMatch [equalMatcher ''env'' ''prod''] [[(''env'', ''dev'')]] \<and>
   labelSetsMatch [equalMatcher ''env'' ''prod''] []"
  unfolding labelSetsMatch_accepts_iff by (simp add: equalMatcher_def Matches_def)

lemma labelSetsMatch_one_label:
  "labelSetsMatch sm [[(n, v)]] \<longleftrightarrow> (\<forall>m \<in> set sm. Name m = n \<longrightarrow> Matches m v)"
  by (auto simp: labelSetsMatch_def labelSetsLoop_iff notMatched_iff)

lemma debugMatchLoop_iff:
  "debugMatchLoop b sms addr \<longleftrightarrow>
     b \<or> (\<exists>sm \<in> set sms. labelSetsMatch sm [[(''__address__'', addr)]])"
  by (induction sms arbitrary: b) auto

text \<open>
  C8, as amended.  If the context carries no address-matcher list, the debug address
  filter accepts every backend.  If it carries a non-empty list, a backend is kept iff
  it is not local and, for at least one matcher group, its address satisfies every
  matcher of the group that is named \<open>__address__\<close>; matchers of any other name are
  not tested against the address.
\<close>

theorem storeMatchDebugMetadata_keeps_iff:
  "(StoreMatcherKey ctx = None \<longrightarrow> storeMatchDebugMetadata s (storeDebugMatcher ctx)) \<and>
   (StoreMatcherKey ctx = Some groups \<and> groups \<noteq> [] \<longrightarrow>
      storeDebugMatcher ctx = groups \<and>
      (storeMatchDebugMetadata s groups \<longleftrightarrow>
         \<not> snd (Addr s) \<and>
         (\<exists>g \<in> set groups. \<forall>m \<in> set g.
            Name m = ''__address__'' \<longrightarrow> Matches m (fst (Addr s)))))"
  by (auto simp: storeMatchDebugMetadata_def storeDebugMatcher_def debugMatchLoop_iff
      labelSetsMatch_one_label split: prod.splits)

text \<open>
  Without matchers in the context a local backend is kept.  Scenario S4: with the group
  \<open>__address__ = 10.0.0.1:9090\<close> the remote backend at that address is kept, the
  remote backend at 10.0.0.2:9090 and a local backend are not.
\<close>

theorem storeMatchDebugMetadata_keeps_iff_witness:
  "storeMatchDebugMetadata (storeAt ''10.0.0.1:9090'' True)
     (storeDebugMatcher \<lparr>StoreMatcherKey = None\<rparr>) \<and>
   storeMatchDebugMetadata (storeAt ''10.0.0.1:9090'' False)
     [[equalMatcher ''__address__'' ''10.0.0.1:9090'']] \<and>
   \<not> storeMatchDebugMetadata (storeAt ''10.0.0.2:9090'' False)
     [[equalMatcher ''__address__'' ''10.0.0.1:9090'']] \<and>
   \<not> storeMatchDebugMetadata (storeAt ''10.0.0.1:9090'' True)
     [[equalMatcher ''__address__'' ''10.0.0.1:9090'']]"
  using storeMatchDebugMetadata_keeps_iff
    [where ctx = "\<lparr>StoreMatcherKey = None\<rparr>" and s = "storeAt ''10.0.0.1:9090'' True"]
    storeMatchDebugMetadata_keeps_iff
    [where ctx = "\<lparr>StoreMatcherKey = Some [[equalMatcher ''__address__'' ''10.0.0.1:9090'']]\<rparr>"
       and groups = "[[equalMatcher ''__address__'' ''10.0.0.1:9090'']]"
       and s = "storeAt ''10.0.0.1:9090'' False"]
    storeMatchDebugMetadata_keeps_iff
    [where ctx = "\<lparr>StoreMatcherKey = Some [[equalMatcher ''__address__'' ''10.0.0.1:9090'']]\<rparr>"
       and groups = "[[equalMatcher ''__address__'' ''10.0.0.1:9090'']]"
       and s = "storeAt ''10.0.0.2:9090'' False"]
    storeMatchDebugMetadata_keeps_iff
    [where ctx = "\<lparr>StoreMatcherKey = Some [[equalMatcher ''__address__'' ''10.0.0.1:9090'']]\<rparr>"
       and groups = "[[equalMatcher ''__address__'' ''10.0.0.1:9090'']]"
       and s = "storeAt ''10.0.0.1:9090'' True"]
  by (simp add: storeAt_def equalMatcher_def Matches_def)

text \<open>
  C8 as first stated asks that the address satisfy all matchers of a group.  The group
  \<open>foo = bar\<close> keeps the backend at 10.0.0.1:9090, whose address does not satisfy that
  matcher.
\<close>

theorem address_of_other_name_counterexample:
  "storeMatchDebugMetadata (storeAt ''10.0.0.1:9090'' False) [[equalMatcher ''foo'' ''bar'']] \<and>
   \<not> (\<exists>g \<in> set [[equalMatcher ''foo'' ''bar'']]. \<forall>m \<in> set g. Matches m ''10.0.0.1:9090'')"
  by (simp add: storeMatchDebugMetadata_def storeAt_def equalMatcher_def Matches_def
      labelSetsMatch_def)

subsection \<open>Series: the preamble and the selection of stores\<close>

lemma selectStores_fst:
  "fst (selectStores s ctx mint maxt ms sts (sel, lsets, grs)) =
     sel @ filter (\<lambda>st. storeMatches ctx st mint maxt ms \<and> fst (tsdbSelector s (LabelSets st))) sts"
  by (induction sts arbitrary: sel lsets grs) (auto split: prod.splits)

text \<open>
  C5.  When \<^verbatim>\<open>matchesExternalLabels\<close> reports that the request matchers do not match the
  selector labels, \<open>Series\<close> returns no error, sends no response and opens no backend;
  when it reports a match and no matcher is left, \<open>Series\<close> returns an
  \<open>InvalidArgument\<close> status, again without sending a response or opening a backend.
\<close>

theorem Series_preamble:
  "(matchesExternalLabels ext (Matchers req) (selectorLabels s) = (False, ms, None) \<longrightarrow>
      fst (Series ext s req srv) = None \<and> sent (snd (Series ext s req srv)) = [] \<and>
      queried (snd (Series ext s req srv)) = []) \<and>
   (matchesExternalLabels ext (Matchers req) (selectorLabels s) = (True, [], None) \<longrightarrow>
      fst (Series ext s req srv) =
        Some (Return (StatusError InvalidArgument
                ''no matchers specified (excluding selector labels)'')) \<and>
      sent (snd (Series ext s req srv)) = [] \<and> queried (snd (Series ext s req srv)) = [])"
  by (simp add: Series_def initState_def)

text \<open>
  Scenario S3: under the selector labels \<open>env = prod\<close> the matcher \<open>env = dev\<close> gives
  an empty success and no store is opened; the matcher \<open>env = prod\<close> alone leaves no
  matcher and gives \<open>InvalidArgument\<close>.
\<close>

theorem Series_preamble_witness:
  "matchesExternalLabels (scenarioExternals (\<lambda>st. (Some [], None))) [equalMatcher ''env'' ''dev'']
      [(''env'', ''prod'')] = (False, [], None) \<and>
   fst (Series (scenarioExternals (\<lambda>st. (Some [], None)))
          (scenarioProxy [storeAt ''10.0.0.1:9090'' False] [(''env'', ''prod'')])
          (scenarioRequest [equalMatcher ''env'' ''dev''] False WARN) scenarioServer) = None \<and>
   queried (snd (Series (scenarioExternals (\<lambda>st. (Some [], None)))
          (scenarioProxy [storeAt ''10.0.0.1:9090'' False] [(''env'', ''prod'')])
          (scenarioRequest [equalMatcher ''env'' ''dev''] False WARN) scenarioServer)) = [] \<and>
   matchesExternalLabels (scenarioExternals (\<lambda>st. (Some [], None))) [equalMatcher ''env'' ''prod'']
      [(''env'', ''prod'')] = (True, [], None) \<and>
   fst (Series (scenarioExternals (\<lambda>st. (Some [], None)))
          (scenarioProxy [storeAt ''10.0.0.1:9090'' False] [(''env'', ''prod'')])
          (scenarioRequest [equalMatcher ''env'' ''prod''] False WARN) scenarioServer) =
     Some (Return (StatusError InvalidArgument
             ''no matchers specified (excluding selector labels)''))"
proof -
  have a: "matchesExternalLabels (scenarioExternals (\<lambda>st. (Some [], None))) [equalMatcher ''env'' ''dev'']
      [(''env'', ''prod'')] = (False, [], None)"
    by (simp add: scenarioExternals_def matchesExternalLabels_spec_def equalMatcher_def Matches_def)
  have b: "matchesExternalLabels (scenarioExternals (\<lambda>st. (Some [], None))) [equalMatcher ''env'' ''prod'']
      [(''env'', ''prod'')] = (True, [], None)"
    by (simp add: scenarioExternals_def matchesExternalLabels_spec_def equalMatcher_def Matches_def)
  show ?thesis
    using a b
      Series_preamble [where ext = "scenarioExternals (\<lambda>st. (Some [], None))"
        and req = "scenarioRequest [equalMatcher ''env'' ''dev''] False WARN"
        and s = "scenarioProxy [storeAt ''10.0.0.1:9090'' False] [(''env'', ''prod'')]"
        and ms = "[]" and srv = scenarioServer]
      Series_preamble [where ext = "scenarioExternals (\<lambda>st. (Some [], None))"
        and req = "scenarioRequest [equalMatcher ''env'' ''prod''] False WARN"
        and s = "scenarioProxy [storeAt ''10.0.0.1:9090'' False] [(''env'', ''prod'')]"
        and ms = "[]" and srv = scenarioServer]
    by (simp add: scenarioRequest_def scenarioProxy_def)
qed

text \<open>
  C6.  \<open>storeMatches\<close> keeps a backend iff the time ranges overlap, that is the
  request's minimum time is at most the backend's maximum time and the request's
  maximum time is at least the backend's minimum time, and the address filter and the
  external-label filter accept it.  When the preamble has passed and no store of the
  snapshot passes \<open>storeMatches\<close> and the TSDB selector, \<open>Series\<close> returns no error
  and sends no response.
\<close>

theorem storeMatches_time_overlap:
  "(storeMatches ctx st mint maxt matchers \<longleftrightarrow>
      (sint mint \<le> sint (snd (TimeRange st)) \<and> sint maxt \<ge> sint (fst (TimeRange st))) \<and>
      storeMatchDebugMetadata st (storeDebugMatcher ctx) \<and>
      labelSetsMatch matchers (LabelSets st)) \<and>
   (matchesExternalLabels ext (Matchers req) (selectorLabels s) = (True, ms, None) \<and> ms \<noteq> [] \<and>
    (\<forall>b \<in> set (stores s).
        \<not> (storeMatches (Context srv) b (MinTime req) (MaxTime req) ms \<and>
           fst (tsdbSelector s (LabelSets b)))) \<longrightarrow>
      fst (Series ext s req srv) = None \<and> sent (snd (Series ext s req srv)) = [] \<and>
      queried (snd (Series ext s req srv)) = [])"
proof -
  have a: "storeMatches ctx st mint maxt matchers \<longleftrightarrow>
      (sint mint \<le> sint (snd (TimeRange st)) \<and> sint maxt \<ge> sint (fst (TimeRange st))) \<and>
      storeMatchDebugMetadata st (storeDebugMatcher ctx) \<and>
      labelSetsMatch matchers (LabelSets st)"
    by (auto simp: storeMatches_def word_sless_alt split: prod.splits)
  have b: "fst (Series ext s req srv) = None \<and> sent (snd (Series ext s req srv)) = [] \<and>
      queried (snd (Series ext s req srv)) = []"
    if m: "matchesExternalLabels ext (Matchers req) (selectorLabels s) = (True, ms, None)"
      and ne: "ms \<noteq> []"
      and none: "\<forall>b \<in> set (stores s).
        \<not> (storeMatches (Context srv) b (MinTime req) (MaxTime req) ms \<and>
           fst (tsdbSelector s (LabelSets b)))"
  proof -
    obtain sel lsets grs where sl:
      "selectStores s (Context srv) (MinTime req) (MaxTime req) ms (stores s) ([], [], []) = (sel, lsets, grs)"
      by (cases "selectStores s (Context srv) (MinTime req) (MaxTime req) ms (stores s) ([], [], [])") auto
    have "sel = []"
      using selectStores_fst [of s "Context srv" "MinTime req" "MaxTime req" ms "stores s" "[]" "[]" "[]"] none
      by (simp add: sl filter_empty_conv)
    then show ?thesis
      using m ne sl by (simp add: Series_def initState_def)
  qed
  show ?thesis using a b by blast
qed

text \<open>
  A store with data for the times 0 to 1000 is kept for the request range 0 to 100 and
  dropped for the range 1001 to 2000, for which \<open>Series\<close> returns an empty success.
\<close>

theorem storeMatches_time_overlap_witness:
  "storeMatches (Context scenarioServer) (storeAt ''a'' False) 0 100 [equalMatcher ''a'' ''1''] \<and>
   \<not> storeMatches (Context scenarioServer) (storeAt ''a'' False) 1001 2000 [equalMatcher ''a'' ''1''] \<and>
   fst (Series (scenarioExternals (\<lambda>st. (Some [], None))) (scenarioProxy [storeAt ''a'' False] [])
          \<lparr>MinTime = 1001, MaxTime = 2000, Matchers = [equalMatcher ''a'' ''1''],
           PartialResponseDisabled = False, PartialResponseStrategy = WARN\<rparr> scenarioServer) = None \<and>
   sent (snd (Series (scenarioExternals (\<lambda>st. (Some [], None))) (scenarioProxy [storeAt ''a'' False] [])
          \<lparr>MinTime = 1001, MaxTime = 2000, Matchers = [equalMatcher ''a'' ''1''],
           PartialResponseDisabled = False, PartialResponseStrategy = WARN\<rparr> scenarioServer)) = []"
proof -
  have m: "matchesExternalLabels (scenarioExternals (\<lambda>st. (Some [], None))) [equalMatcher ''a'' ''1''] []
      = (True, [equalMatcher ''a'' ''1''], None)"
    by (simp add: scenarioExternals_def matchesExternalLabels_spec_def)
  have t: "storeMatches (Context scenarioServer) (storeAt ''a'' False) 0 100 [equalMatcher ''a'' ''1''] \<and>
     \<not> storeMatches (Context scenarioServer) (storeAt ''a'' False) 1001 2000 [equalMatcher ''a'' ''1'']"
    unfolding storeMatches_time_overlap [THEN conjunct1]
    by (simp add: storeAt_def scenarioServer_def storeDebugMatcher_def
        storeMatchDebugMetadata_def labelSetsMatch_def)
  show ?thesis
    using t m storeMatches_time_overlap [where ext = "scenarioExternals (\<lambda>st. (Some [], None))"
        and s = "scenarioProxy [storeAt ''a'' False] []"
        and req = "\<lparr>MinTime = 1001, MaxTime = 2000, Matchers = [equalMatcher ''a'' ''1''],
           PartialResponseDisabled = False, PartialResponseStrategy = WARN\<rparr>"
        and ms = "[equalMatcher ''a'' ''1'']" and srv = scenarioServer, THEN conjunct2]
    by (simp add: scenarioProxy_def)
qed

subsection \<open>The counters\<close>

text \<open>
  The association lists behave as the Go maps: \<open>bumpCounter\<close> adds one to the counter
  of its two keys and changes no other counter; the keys of an inner map stay distinct,
  so its length is the number of its keys.
\<close>

lemma inner_bumpCounter:
  "inner (bumpCounter g r mp) g' =
     (if g' = g then AList.update r (counter mp g r + 1) (inner mp g) else inner mp g')"
  by (auto simp: bumpCounter_def inner_def counter_def update_conv' Let_def split: option.splits)

lemma counter_bumpCounter:
  "counter (bumpCounter g r mp) g' r' =
     (if g' = g \<and> r' = r then counter mp g r + 1 else counter mp g' r')"
  by (auto simp: counter_def inner_bumpCounter update_conv')

lemma keys_bumpCounter:
  "fst ` set (inner (bumpCounter g r mp) g) = insert r (fst ` set (inner mp g))"
  by (simp add: inner_bumpCounter dom_update)

lemma distinct_bumpCounter:
  "distinct (map fst (inner mp g')) \<Longrightarrow> distinct (map fst (inner (bumpCounter g r mp) g'))"
  by (auto simp: inner_bumpCounter distinct_update)

lemma length_inner_card:
  "distinct (map fst (inner mp g)) \<Longrightarrow> length (inner mp g) = card (fst ` set (inner mp g))"
  by (metis distinct_card length_map list.set_map)

lemma counter_empty: "counter [] g k = 0"
  by (simp add: counter_def inner_def)

lemma counter_bumpAll:
  "counter (bumpAll sts mp) g r =
     counter mp g r + length (filter (\<lambda>st. GroupKey st = g \<and> ReplicaKey st = r) sts)"
  unfolding bumpAll_def
  by (induction sts arbitrary: mp) (auto simp: counter_bumpCounter)

lemma keys_bumpAll:
  "fst ` set (inner (bumpAll sts mp) g) =
     fst ` set (inner mp g) \<union> ReplicaKey ` {st \<in> set sts. GroupKey st = g}"
  unfolding bumpAll_def
proof (induction sts arbitrary: mp)
  case Nil
  then show ?case by simp
next
  case (Cons st sts)
  have "fst ` set (inner (bumpCounter (GroupKey st) (ReplicaKey st) mp) g) =
      (if GroupKey st = g then insert (ReplicaKey st) (fst ` set (inner mp g))
       else fst ` set (inner mp g))"
    by (simp add: inner_bumpCounter dom_update)
  then show ?case using Cons.IH by auto
qed

lemma distinct_bumpAll:
  "distinct (map fst (inner mp g)) \<Longrightarrow> distinct (map fst (inner (bumpAll sts mp) g))"
  unfolding bumpAll_def
  by (induction sts arbitrary: mp) (auto simp: distinct_bumpCounter)

lemma length_inner_bumpAll:
  "length (inner (bumpAll sts []) g) = card (ReplicaKey ` {st \<in> set sts. GroupKey st = g})"
proof -
  have e: "inner [] g = []" by (simp add: inner_def)
  have d: "distinct (map fst (inner (bumpAll sts []) g))"
    by (rule distinct_bumpAll) (simp add: e)
  have "fst ` set (inner (bumpAll sts []) g) = ReplicaKey ` {st \<in> set sts. GroupKey st = g}"
    unfolding keys_bumpAll e by simp
  then show ?thesis using length_inner_card [OF d] by simp
qed

lemma selectStores_counters:
  "snd (snd (selectStores s ctx mint maxt ms sts (sel, lsets, grs))) =
     bumpAll (filter (\<lambda>st. storeMatches ctx st mint maxt ms \<and> fst (tsdbSelector s (LabelSets st))) sts) grs"
  unfolding bumpAll_def
  by (induction sts arbitrary: sel lsets grs) (auto split: prod.splits)

lemma openStores_counters:
  "openStores ext srv r grs sts \<sigma> = (e, \<sigma>') \<Longrightarrow>
     \<exists>opened. queried \<sigma>' = queried \<sigma> @ opened \<and>
       failedStores \<sigma>' =
         bumpAll (filter (\<lambda>st. snd (newAsyncRespSet ext st r) \<noteq> None) opened) (failedStores \<sigma>) \<and>
       totalFailedStores \<sigma>' =
         totalFailedStores \<sigma> + length (filter (\<lambda>st. snd (newAsyncRespSet ext st r) \<noteq> None) opened)"
proof (induction sts arbitrary: \<sigma>)
  case Nil
  then show ?case by (auto simp: bumpAll_def)
next
  case (Cons st sts)
  obtain respSet oe where n: "newAsyncRespSet ext st r = (respSet, oe)"
    by (cases "newAsyncRespSet ext st r")
  show ?case
  proof (cases oe)
    case None
    let ?\<sigma>0 = "\<sigma>\<lparr>queried := queried \<sigma> @ [st]\<rparr>"
    show ?thesis
    proof (cases respSet)
      case nil: None
      have "\<sigma>' = ?\<sigma>0" using Cons.prems n None nil by simp
      then show ?thesis
        by (intro exI [of _ "[st]"]) (use n None in \<open>simp add: bumpAll_def\<close>)
    next
      case (Some rs)
      let ?\<sigma> = "\<sigma>\<lparr>queried := queried \<sigma> @ [st], storeResponses := storeResponses \<sigma> @ [rs]\<rparr>"
      have "openStores ext srv r grs sts ?\<sigma> = (e, \<sigma>')"
        using Cons.prems n None Some by simp
      from Cons.IH [OF this] obtain opened where o: "queried \<sigma>' = queried ?\<sigma> @ opened"
        "failedStores \<sigma>' =
           bumpAll (filter (\<lambda>st. snd (newAsyncRespSet ext st r) \<noteq> None) opened) (failedStores ?\<sigma>)"
        "totalFailedStores \<sigma>' =
           totalFailedStores ?\<sigma> + length (filter (\<lambda>st. snd (newAsyncRespSet ext st r) \<noteq> None) opened)"
        by blast
      show ?thesis
        by (intro exI [of _ "st # opened"]) (use o n None in \<open>simp add: bumpAll_def\<close>)
    qed
  next
    case (Some err)
    let ?\<sigma>1 = "noteFailure st (\<sigma>\<lparr>queried := queried \<sigma> @ [st]\<rparr>)"
    have base: "queried ?\<sigma>1 = queried \<sigma> @ [st]"
      "failedStores ?\<sigma>1 = bumpAll [st] (failedStores \<sigma>)"
      "totalFailedStores ?\<sigma>1 = totalFailedStores \<sigma> + 1"
      by (simp_all add: noteFailure_def bumpAll_def)
    have stop: ?thesis if "\<sigma>' = ?\<sigma>1"
      by (intro exI [of _ "[st]"]) (use that base n Some in \<open>simp add: bumpAll_def\<close>)
    have go: ?thesis
      if "openStores ext srv r grs sts \<tau> = (e, \<sigma>')" and "queried \<tau> = queried ?\<sigma>1"
        and "failedStores \<tau> = failedStores ?\<sigma>1" and "totalFailedStores \<tau> = totalFailedStores ?\<sigma>1"
      for \<tau>
    proof -
      from Cons.IH [OF that(1)] obtain opened where o: "queried \<sigma>' = queried \<tau> @ opened"
        "failedStores \<sigma>' =
           bumpAll (filter (\<lambda>st. snd (newAsyncRespSet ext st r) \<noteq> None) opened) (failedStores \<tau>)"
        "totalFailedStores \<sigma>' =
           totalFailedStores \<tau> + length (filter (\<lambda>st. snd (newAsyncRespSet ext st r) \<noteq> None) opened)"
        by blast
      show ?thesis
        by (intro exI [of _ "st # opened"]) (use o that(2-4) base n Some in \<open>simp add: bumpAll_def\<close>)
    qed
    show ?thesis
      using Cons.prems n Some stop go
      by (auto simp: Let_def split: if_splits option.splits)
  qed
qed

text \<open>
  What the counters of \<open>Series\<close> count.  For the eligible stores:
  \<open>groupReplicaStores[g]\<close> has one key for each replica key among the selected stores
  of the group \<open>g\<close>, and \<open>groupReplicaStores[g][k]\<close> is the number of selected
  stores of the group \<open>g\<close> and the replica \<open>k\<close>.  For the failures, after the loop
  has opened a list of stores from the initial state: \<open>failedStores[g]\<close> has one key
  for each replica key among the stores of the group \<open>g\<close> that failed to open,
  \<open>failedStores[g][k]\<close> is the number of failed stores of the group \<open>g\<close> and the
  replica \<open>k\<close>, and \<open>totalFailedStores\<close> is the number of failed stores.
\<close>

lemma eligible_group_size:
  assumes "selectStores s ctx mint maxt ms sts ([], [], []) = (sel, lsets, grs)"
  shows "length (inner grs g) = card (ReplicaKey ` {st \<in> set sel. GroupKey st = g})"
    and "counter grs g k = length (filter (\<lambda>st. GroupKey st = g \<and> ReplicaKey st = k) sel)"
proof -
  let ?P = "\<lambda>st. storeMatches ctx st mint maxt ms \<and> fst (tsdbSelector s (LabelSets st))"
  have sel: "sel = filter ?P sts"
    using selectStores_fst [of s ctx mint maxt ms sts "[]" "[]" "[]"] assms by simp
  have grs: "grs = bumpAll sel []"
    using selectStores_counters [of s ctx mint maxt ms sts "[]" "[]" "[]"] assms sel by simp
  show "length (inner grs g) = card (ReplicaKey ` {st \<in> set sel. GroupKey st = g})"
    unfolding grs by (rule length_inner_bumpAll)
  show "counter grs g k = length (filter (\<lambda>st. GroupKey st = g \<and> ReplicaKey st = k) sel)"
    unfolding grs by (simp add: counter_bumpAll counter_empty)
qed

lemma failed_group_size:
  assumes "openStores ext srv r grs sts initState = (e, \<sigma>')"
  shows "length (inner (failedStores \<sigma>') g) =
           card (ReplicaKey ` {st \<in> set (queried \<sigma>').
                   GroupKey st = g \<and> snd (newAsyncRespSet ext st r) \<noteq> None})"
    and "counter (failedStores \<sigma>') g k =
           length (filter (\<lambda>st. GroupKey st = g \<and> ReplicaKey st = k \<and>
                     snd (newAsyncRespSet ext st r) \<noteq> None) (queried \<sigma>'))"
    and "totalFailedStores \<sigma>' =
           length (filter (\<lambda>st. snd (newAsyncRespSet ext st r) \<noteq> None) (queried \<sigma>'))"
proof -
  let ?F = "\<lambda>st. snd (newAsyncRespSet ext st r) \<noteq> None"
  from openStores_counters [OF assms] obtain opened where o:
    "queried \<sigma>' = queried (initState :: 'a SeriesState) @ opened"
    "failedStores \<sigma>' = bumpAll (filter ?F opened) (failedStores (initState :: 'a SeriesState))"
    "totalFailedStores \<sigma>' = totalFailedStores (initState :: 'a SeriesState) + length (filter ?F opened)"
    by blast
  have q: "queried \<sigma>' = opened" and f: "failedStores \<sigma>' = bumpAll (filter ?F opened) []"
    and t: "totalFailedStores \<sigma>' = length (filter ?F opened)"
    using o by (simp_all add: initState_def)
  have "{st \<in> set (filter ?F opened). GroupKey st = g} = {st \<in> set opened. GroupKey st = g \<and> ?F st}"
    by auto
  then show "length (inner (failedStores \<sigma>') g) =
           card (ReplicaKey ` {st \<in> set (queried \<sigma>'). GroupKey st = g \<and> ?F st})"
    unfolding f q using length_inner_bumpAll [of "filter ?F opened" g] by simp
  show "counter (failedStores \<sigma>') g k =
           length (filter (\<lambda>st. GroupKey st = g \<and> ReplicaKey st = k \<and> ?F st) (queried \<sigma>'))"
    unfolding f q by (simp add: counter_bumpAll counter_empty conj_commute conj_left_commute)
  show "totalFailedStores \<sigma>' = length (filter ?F (queried \<sigma>'))"
    unfolding q by (rule t)
qed

subsection \<open>Series: failures at open time\<close>

text \<open>
  \<open>Series\<close> past the preamble: when the matchers match the selector labels, some matcher
  is left and the selection keeps some store, \<open>Series\<close> runs the loop that opens the
  response sets and, if that loop does not end it, the loop over the merged stream.  The
  two loops see the request with the matchers of the sub-request (lines 313-328, 383).
\<close>

lemma Series_open_loop:
  assumes "matchesExternalLabels ext (Matchers req) (selectorLabels s) = (True, ms, None)"
    and "ms \<noteq> []"
    and "selectStores s (Context srv) (MinTime req) (MaxTime req) ms (stores s) ([], [], []) =
           (sel, lsets, grs)"
    and "sel \<noteq> []"
    and "r = req\<lparr>Matchers := PromMatchersToMatchers ext ms @ MatchersForLabelSets ext lsets\<rparr>"
  shows "Series ext s req srv =
    (case openStores ext srv r grs sel initState of
       (Some ending, \<sigma>) \<Rightarrow> (Some ending, \<sigma>)
     | (None, \<sigma>) \<Rightarrow>
         (case streamLoop srv r (mergedResponses ext (storeResponses \<sigma>)) \<sigma> of
            (Some err, \<sigma>') \<Rightarrow> (Some (Return err), \<sigma>')
          | (None, \<sigma>') \<Rightarrow> (None, \<sigma>')))"
  using assms by (simp add: Series_def Let_def split: prod.splits option.splits)


lemma streamLoop_append:
  "streamLoop srv r pre \<sigma>0 = (None, \<sigma>) \<Longrightarrow>
   streamLoop srv r (pre @ rest) \<sigma>0 = streamLoop srv r rest \<sigma>"
  by (induction pre arbitrary: \<sigma>0)
     (auto split: prod.splits option.splits)




text \<open>
  Where the flag and the strategy disagree, the two guards differ: at open time line
  433 sends the warning when the flag is not set or the strategy is \<open>WARN\<close>, and in
  the stream loop line 464 aborts when the flag is set or the strategy is \<open>ABORT\<close>.
  So a failed open under \<open>ABORT\<close> without the flag, or under \<open>WARN\<close> with the flag,
  gives a warning, as computed here; the statement of C1 above leaves these two
  requests out.
\<close>

lemma open_time_mixed_requests:
  "Series (scenarioExternals (failing None [''g-0'']))
      (scenarioProxy [replica ''g'' ''g-0'', replica ''g'' ''g-1''] [])
      (scenarioRequest [equalMatcher ''a'' ''1''] False ABORT) scenarioServer =
     (None,
      \<lparr>failedStores = [(''g'', [(''g-0'', 1)])], totalFailedStores = 1,
        storeResponses = [[SeriesFrame [(''a'', ''1'')] [1]]],
        sent = [WarningFrame ''down'', SeriesFrame [(''a'', ''1'')] [1]],
        queried = [replica ''g'' ''g-0'', replica ''g'' ''g-1'']\<rparr>) \<and>
   Series (scenarioExternals (failing None [''g-0'']))
      (scenarioProxy [replica ''g'' ''g-0'', replica ''g'' ''g-1''] [])
      (scenarioRequest [equalMatcher ''a'' ''1''] True WARN) scenarioServer =
     (None,
      \<lparr>failedStores = [(''g'', [(''g-0'', 1)])], totalFailedStores = 1,
        storeResponses = [[SeriesFrame [(''a'', ''1'')] [1]]],
        sent = [WarningFrame ''down'', SeriesFrame [(''a'', ''1'')] [1]],
        queried = [replica ''g'' ''g-0'', replica ''g'' ''g-1'']\<rparr>)"
  by (simp add: Series_def scenarioExternals_def scenarioProxy_def scenarioRequest_def
      scenarioServer_def equalMatcher_def matchesExternalLabels_spec_def replica_def storeAt_def
      failing_def storeMatches_def storeDebugMatcher_def storeMatchDebugMetadata_def
      labelSetsMatch_def initState_def noteFailure_def bumpCounter_def counter_def inner_def
      checkGroupReplicaErrors_def onWarning_def NewWarnSeriesResponse_def word_sless_alt)

text \<open>
  The group-replica check and what follows it.  Under \<open>GROUP_REPLICA\<close>, after the
  failure of a backend has been counted, the check returns the error, and \<open>Series\<close>
  returns it, iff the failed replicas of the backend's group number more than one, or
  the group has exactly one eligible replica and that replica has failed more than
  once.  In every other case the check returns nil, and lines 443-444 run on the
  response set that came with the error: a nil one makes \<open>Series\<close> panic, any other
  is registered for the merge before the loop goes on.
\<close>

lemma group_replica_check:
  assumes "newAsyncRespSet ext st r = (respSet, Some err)"
    and "PartialResponseStrategy r = GROUP_REPLICA"
  shows
    "(let \<sigma>1 = noteFailure st (\<sigma>\<lparr>queried := queried \<sigma> @ [st]\<rparr>);
          fs = failedStores \<sigma>1;
          abort = (length (inner fs (GroupKey st)) > 1 \<or>
                   (length (inner grs (GroupKey st)) = 1 \<and>
                    counter fs (GroupKey st) (ReplicaKey st) > 1))
      in checkGroupReplicaErrors grs fs st err = (if abort then Some err else None) \<and>
         openStores ext srv r grs (st # sts) \<sigma> =
           (if abort then (Some (Return err), \<sigma>1)
            else case respSet of
                   None \<Rightarrow> (Some Panic, \<sigma>1)
                 | Some rs \<Rightarrow>
                     openStores ext srv r grs sts
                       (\<sigma>1\<lparr>storeResponses := storeResponses \<sigma>1 @ [rs]\<rparr>)))"
  using assms by (auto simp: checkGroupReplicaErrors_def Let_def split: option.splits)

text \<open>
  C3 asks that a failure the check tolerates lets the request continue.  The group \<open>g\<close>
  has the eligible replicas \<open>g-0\<close> and \<open>g-1\<close>; opening \<open>g-0\<close> fails and, as a failed
  open does, gives the nil response set with the error.  The check tolerates the
  failure, and \<open>Series\<close> panics at line 444 without opening \<open>g-1\<close>.
\<close>

theorem tolerated_failure_panics:
  "checkGroupReplicaErrors [(''g'', [(''g-0'', 1), (''g-1'', 1)])] [(''g'', [(''g-0'', 1)])]
     (replica ''g'' ''g-0'') (ErrorString ''down'') = None \<and>
   Series (scenarioExternals (failing None [''g-0'']))
      (scenarioProxy [replica ''g'' ''g-0'', replica ''g'' ''g-1''] [])
      (scenarioRequest [equalMatcher ''a'' ''1''] False GROUP_REPLICA) scenarioServer =
     (Some Panic, \<lparr>failedStores = [(''g'', [(''g-0'', 1)])], totalFailedStores = 1,
                   storeResponses = [], sent = [], queried = [replica ''g'' ''g-0'']\<rparr>)"
  by (simp add: Series_def scenarioExternals_def scenarioProxy_def scenarioRequest_def
      scenarioServer_def equalMatcher_def matchesExternalLabels_spec_def replica_def storeAt_def
      failing_def storeMatches_def storeDebugMatcher_def storeMatchDebugMetadata_def
      labelSetsMatch_def initState_def noteFailure_def bumpCounter_def counter_def inner_def
      checkGroupReplicaErrors_def word_sless_alt)

text \<open>
  C4, as amended.  Under \<open>GROUP_REPLICA\<close>, let the eligible stores be two replicas
  \<open>x\<close> and \<open>y\<close> of a group \<open>g\<close> and the only replica \<open>z\<close> of a group \<open>h\<close>, and let \<open>x\<close>
  fail to open, \<open>y\<close> open and \<open>z\<close> fail to open.  The check tolerates the failure of
  \<open>x\<close> and, \<open>z\<close> having failed once only, the failure of \<open>z\<close>: the loop does not return
  an error.  The check returns the error of \<open>z\<close> when a second eligible store of the
  group \<open>h\<close> and the replica \<open>z\<close> has failed as well.
\<close>

theorem sole_replica_single_failure:
  assumes gr: "PartialResponseStrategy r = GROUP_REPLICA"
    and keys: "GroupKey a = g" "ReplicaKey a = x" "GroupKey b = g" "ReplicaKey b = y"
      "GroupKey c = h" "ReplicaKey c = z" "g \<noteq> h" "x \<noteq> y"
    and a: "snd (newAsyncRespSet ext a r) = Some ea"
    and b: "snd (newAsyncRespSet ext b r) = None"
    and c: "snd (newAsyncRespSet ext c r) = Some ec"
  shows
    "checkGroupReplicaErrors (bumpAll [a, b, c] []) (bumpAll [a] []) a ea = None \<and>
     checkGroupReplicaErrors (bumpAll [a, b, c] []) (bumpAll [a, c] []) c ec = None \<and>
     fst (openStores ext srv r (bumpAll [a, b, c] []) [a, b, c] initState) \<in> {None, Some Panic} \<and>
     checkGroupReplicaErrors (bumpAll [a, b, c, c] []) (bumpAll [a, c, c] []) c ec = Some ec"
proof -
  obtain rsa rsb rsc where n: "newAsyncRespSet ext a r = (rsa, Some ea)"
    "newAsyncRespSet ext b r = (rsb, None)" "newAsyncRespSet ext c r = (rsc, Some ec)"
    using a b c by (metis prod.collapse)
  have checks: "checkGroupReplicaErrors (bumpAll [a, b, c] []) (bumpAll [a] []) a ea = None"
    "checkGroupReplicaErrors (bumpAll [a, b, c] []) (bumpAll [a, c] []) c ec = None"
    "checkGroupReplicaErrors (bumpAll [a, b, c, c] []) (bumpAll [a, c, c] []) c ec = Some ec"
    using keys
    by (simp_all add: checkGroupReplicaErrors_def bumpAll_def bumpCounter_def counter_def inner_def)
  have "fst (openStores ext srv r (bumpAll [a, b, c] []) [a, b, c] initState) \<in> {None, Some Panic}"
    using gr keys n
    by (auto simp: initState_def noteFailure_def checkGroupReplicaErrors_def bumpAll_def
        bumpCounter_def counter_def inner_def Let_def split: option.splits)
  then show ?thesis using checks by simp
qed

text \<open>
  The groups \<open>g\<close> with \<open>g-0\<close>, \<open>g-1\<close> and \<open>h\<close> with \<open>h-0\<close>: whether the failed opens give
  nil or an empty response set, the loop returns no error.
\<close>

theorem sole_replica_single_failure_witness:
  "fst (openStores (scenarioExternals (failing None [''g-0'', ''h-0''])) scenarioServer
      (scenarioRequest [] False GROUP_REPLICA)
      (bumpAll [replica ''g'' ''g-0'', replica ''g'' ''g-1'', replica ''h'' ''h-0''] [])
      [replica ''g'' ''g-0'', replica ''g'' ''g-1'', replica ''h'' ''h-0''] initState)
     \<in> {None, Some Panic} \<and>
   fst (openStores (scenarioExternals (failing (Some []) [''g-0'', ''h-0''])) scenarioServer
      (scenarioRequest [] False GROUP_REPLICA)
      (bumpAll [replica ''g'' ''g-0'', replica ''g'' ''g-1'', replica ''h'' ''h-0''] [])
      [replica ''g'' ''g-0'', replica ''g'' ''g-1'', replica ''h'' ''h-0''] initState) = None"
proof -
  have gr: "PartialResponseStrategy (scenarioRequest [] False GROUP_REPLICA) = GROUP_REPLICA"
    by (simp add: scenarioRequest_def)
  have keys: "GroupKey (replica ''g'' ''g-0'') = ''g''" "ReplicaKey (replica ''g'' ''g-0'') = ''g-0''"
    "GroupKey (replica ''g'' ''g-1'') = ''g''" "ReplicaKey (replica ''g'' ''g-1'') = ''g-1''"
    "GroupKey (replica ''h'' ''h-0'') = ''h''" "ReplicaKey (replica ''h'' ''h-0'') = ''h-0''"
    "''g'' \<noteq> ''h''" "''g-0'' \<noteq> ''g-1''"
    by (simp_all add: replica_def)
  have a: "snd (newAsyncRespSet (scenarioExternals (failing rs [''g-0'', ''h-0''])) (replica ''g'' ''g-0'')
      (scenarioRequest [] False GROUP_REPLICA)) = Some (ErrorString ''down'')" for rs
    by (simp add: scenarioExternals_def failing_def replica_def storeAt_def)
  have b: "snd (newAsyncRespSet (scenarioExternals (failing rs [''g-0'', ''h-0''])) (replica ''g'' ''g-1'')
      (scenarioRequest [] False GROUP_REPLICA)) = None" for rs
    by (simp add: scenarioExternals_def failing_def replica_def storeAt_def)
  have c: "snd (newAsyncRespSet (scenarioExternals (failing rs [''g-0'', ''h-0''])) (replica ''h'' ''h-0'')
      (scenarioRequest [] False GROUP_REPLICA)) = Some (ErrorString ''down'')" for rs
    by (simp add: scenarioExternals_def failing_def replica_def storeAt_def)
  have 1: "fst (openStores (scenarioExternals (failing None [''g-0'', ''h-0''])) scenarioServer
      (scenarioRequest [] False GROUP_REPLICA)
      (bumpAll [replica ''g'' ''g-0'', replica ''g'' ''g-1'', replica ''h'' ''h-0''] [])
      [replica ''g'' ''g-0'', replica ''g'' ''g-1'', replica ''h'' ''h-0''] initState)
     \<in> {None, Some Panic}"
    using sole_replica_single_failure [OF gr keys a b c, where srv = scenarioServer] by blast
  have 2: "fst (openStores (scenarioExternals (failing (Some []) [''g-0'', ''h-0''])) scenarioServer
      (scenarioRequest [] False GROUP_REPLICA)
      (bumpAll [replica ''g'' ''g-0'', replica ''g'' ''g-1'', replica ''h'' ''h-0''] [])
      [replica ''g'' ''g-0'', replica ''g'' ''g-1'', replica ''h'' ''h-0''] initState) = None"
    by (simp add: scenarioExternals_def failing_def scenarioRequest_def scenarioServer_def
        initState_def noteFailure_def checkGroupReplicaErrors_def bumpAll_def bumpCounter_def
        counter_def inner_def replica_def storeAt_def)
  show ?thesis using 1 2 by blast
qed

text \<open>
  Scenario S6 as the spec states it ends aborted with an error.  \<open>Series\<close> on the groups
  \<open>g\<close> with \<open>g-0\<close>, \<open>g-1\<close> and \<open>h\<close> with \<open>h-0\<close>, where \<open>g-0\<close> and \<open>h-0\<close> fail to open,
  returns no error: when the failed opens give nil it panics after the check has
  tolerated \<open>g-0\<close>, before \<open>h-0\<close> is opened; when they give an empty response set it
  returns nil and forwards the series of \<open>g-1\<close>.
\<close>

theorem sole_replica_scenario_counterexample:
  "Series (scenarioExternals (failing None [''g-0'', ''h-0'']))
      (scenarioProxy [replica ''g'' ''g-0'', replica ''g'' ''g-1'', replica ''h'' ''h-0''] [])
      (scenarioRequest [equalMatcher ''a'' ''1''] False GROUP_REPLICA) scenarioServer =
     (Some Panic, \<lparr>failedStores = [(''g'', [(''g-0'', 1)])], totalFailedStores = 1,
                   storeResponses = [], sent = [], queried = [replica ''g'' ''g-0'']\<rparr>) \<and>
   Series (scenarioExternals (failing (Some []) [''g-0'', ''h-0'']))
      (scenarioProxy [replica ''g'' ''g-0'', replica ''g'' ''g-1'', replica ''h'' ''h-0''] [])
      (scenarioRequest [equalMatcher ''a'' ''1''] False GROUP_REPLICA) scenarioServer =
     (None, \<lparr>failedStores = [(''g'', [(''g-0'', 1)]), (''h'', [(''h-0'', 1)])],
             totalFailedStores = 2,
             storeResponses = [[], [SeriesFrame [(''a'', ''1'')] [1]], []],
             sent = [SeriesFrame [(''a'', ''1'')] [1]],
             queried = [replica ''g'' ''g-0'', replica ''g'' ''g-1'', replica ''h'' ''h-0'']\<rparr>)"
  by (simp add: Series_def scenarioExternals_def scenarioProxy_def scenarioRequest_def
      scenarioServer_def equalMatcher_def matchesExternalLabels_spec_def replica_def storeAt_def
      failing_def storeMatches_def storeDebugMatcher_def storeMatchDebugMetadata_def
      labelSetsMatch_def initState_def noteFailure_def bumpCounter_def counter_def inner_def
      checkGroupReplicaErrors_def onWarning_def word_sless_alt)

subsection \<open>Series: warnings in the merged stream\<close>

text \<open>
  C2, as amended.  Let both loops be reached, let the stream loop have gone through the
  responses \<open>pre\<close> of the merged stream without ending, and let the next response
  carry a warning; it is counted in \<open>totalFailedStores\<close>.  With the strategy
  \<open>ABORT\<close>, or with \<open>PartialResponseDisabled\<close> set and the strategy \<open>WARN\<close>,
  \<open>Series\<close> returns the status \<open>Aborted\<close>.  With the strategy \<open>GROUP_REPLICA\<close>,
  whether or not the flag is set, \<open>Series\<close> returns \<open>Aborted\<close> iff the counter now
  exceeds 1, and forwards the warning otherwise.  With the strategy \<open>WARN\<close> and the
  flag not set the warning is forwarded.  A forwarded warning is sent to the caller;
  \<open>Series\<close> goes on with the rest of the stream when the send succeeds and returns
  the status \<open>Unknown\<close> when it fails.
\<close>

theorem Series_warning_policy:
  assumes "matchesExternalLabels ext (Matchers req) (selectorLabels s) = (True, ms, None)"
    and "ms \<noteq> []"
    and "selectStores s (Context srv) (MinTime req) (MaxTime req) ms (stores s) ([], [], []) =
           (sel, lsets, grs)"
    and "sel \<noteq> []"
    and "r = req\<lparr>Matchers := PromMatchersToMatchers ext ms @ MatchersForLabelSets ext lsets\<rparr>"
    and "openStores ext srv r grs sel initState = (None, \<sigma>0)"
    and "mergedResponses ext (storeResponses \<sigma>0) = pre @ resp # rest"
    and "streamLoop srv r pre \<sigma>0 = (None, \<sigma>)"
    and "GetWarning resp \<noteq> []"
  shows
    "(let \<sigma>1 = \<sigma>\<lparr>totalFailedStores := totalFailedStores \<sigma> + 1\<rparr>;
          aborted = (Some (Return (StatusError Aborted (GetWarning resp))), \<sigma>1);
          forwarded =
            (case sendErr srv (length (sent \<sigma>)) of
               Some e \<Rightarrow>
                 (Some (Return (StatusError Unknown (''send series response: '' @ Error e))), \<sigma>1)
             | None \<Rightarrow>
                 (case streamLoop srv r rest (\<sigma>1\<lparr>sent := sent \<sigma> @ [resp]\<rparr>) of
                    (Some e, \<sigma>') \<Rightarrow> (Some (Return e), \<sigma>')
                  | (None, \<sigma>') \<Rightarrow> (None, \<sigma>')))
      in (PartialResponseStrategy req = ABORT \<or>
          (PartialResponseDisabled req \<and> PartialResponseStrategy req = WARN) \<longrightarrow>
            Series ext s req srv = aborted) \<and>
         (PartialResponseStrategy req = GROUP_REPLICA \<longrightarrow>
            Series ext s req srv =
              (if totalFailedStores \<sigma>1 > 1 then aborted else forwarded)) \<and>
         (PartialResponseStrategy req = WARN \<and> \<not> PartialResponseDisabled req \<longrightarrow>
            Series ext s req srv = forwarded))"
proof -
  have s: "PartialResponseStrategy r = PartialResponseStrategy req"
    "PartialResponseDisabled r = PartialResponseDisabled req"
    using assms(5) by simp_all
  have "Series ext s req srv =
    (case streamLoop srv r (resp # rest) \<sigma> of
       (Some e, \<sigma>') \<Rightarrow> (Some (Return e), \<sigma>')
     | (None, \<sigma>') \<Rightarrow> (None, \<sigma>'))"
    using Series_open_loop [OF assms(1-5)] assms(6,7) streamLoop_append [OF assms(8)]
    by simp
  then show ?thesis
    using assms(9) s
    by (auto simp: onWarning_def Let_def split: option.splits)
qed

text \<open>
  The store \<open>g-0\<close> streams the warnings \<open>slow\<close> and \<open>late\<close>.  Under \<open>ABORT\<close>, and
  under \<open>WARN\<close> with the flag set, \<open>Series\<close> returns \<open>Aborted\<close> at the first and
  sends nothing; under \<open>GROUP_REPLICA\<close> it forwards the first and returns \<open>Aborted\<close>
  at the second; under \<open>WARN\<close> without the flag it forwards both and returns nil.
\<close>

theorem Series_warning_policy_witness:
  "Series (scenarioExternals (\<lambda>st. (Some [WarningFrame ''slow'', WarningFrame ''late''], None)))
      (scenarioProxy [replica ''g'' ''g-0''] [])
      (scenarioRequest [equalMatcher ''a'' ''1''] False ABORT) scenarioServer =
     (Some (Return (StatusError Aborted ''slow'')),
      \<lparr>failedStores = [], totalFailedStores = 1,
        storeResponses = [[WarningFrame ''slow'', WarningFrame ''late'']], sent = [],
        queried = [replica ''g'' ''g-0'']\<rparr>) \<and>
   Series (scenarioExternals (\<lambda>st. (Some [WarningFrame ''slow'', WarningFrame ''late''], None)))
      (scenarioProxy [replica ''g'' ''g-0''] [])
      (scenarioRequest [equalMatcher ''a'' ''1''] True WARN) scenarioServer =
     (Some (Return (StatusError Aborted ''slow'')),
      \<lparr>failedStores = [], totalFailedStores = 1,
        storeResponses = [[WarningFrame ''slow'', WarningFrame ''late'']], sent = [],
        queried = [replica ''g'' ''g-0'']\<rparr>) \<and>
   Series (scenarioExternals (\<lambda>st. (Some [WarningFrame ''slow'', WarningFrame ''late''], None)))
      (scenarioProxy [replica ''g'' ''g-0''] [])
      (scenarioRequest [equalMatcher ''a'' ''1''] False GROUP_REPLICA) scenarioServer =
     (Some (Return (StatusError Aborted ''late'')),
      \<lparr>failedStores = [], totalFailedStores = 2,
        storeResponses = [[WarningFrame ''slow'', WarningFrame ''late'']],
        sent = [WarningFrame ''slow''], queried = [replica ''g'' ''g-0'']\<rparr>) \<and>
   Series (scenarioExternals (\<lambda>st. (Some [WarningFrame ''slow'', WarningFrame ''late''], None)))
      (scenarioProxy [replica ''g'' ''g-0''] [])
      (scenarioRequest [equalMatcher ''a'' ''1''] False WARN) scenarioServer =
     (None,
      \<lparr>failedStores = [], totalFailedStores = 2,
        storeResponses = [[WarningFrame ''slow'', WarningFrame ''late'']],
        sent = [WarningFrame ''slow'', WarningFrame ''late''],
        queried = [replica ''g'' ''g-0'']\<rparr>)"
proof -
  let ?ext = "scenarioExternals (\<lambda>st. (Some [WarningFrame ''slow'', WarningFrame ''late''], None))"
  let ?s = "scenarioProxy [replica ''g'' ''g-0''] []"
  let ?m = "equalMatcher ''a'' ''1''"
  let ?\<sigma>0 = "\<lparr>failedStores = [], totalFailedStores = 0,
      storeResponses = [[WarningFrame ''slow'', WarningFrame ''late'']], sent = [],
      queried = [replica ''g'' ''g-0'']\<rparr>"
  have m: "matchesExternalLabels ?ext (Matchers (scenarioRequest [?m] d p)) (selectorLabels ?s) =
      (True, [?m], None)" for d p
    by (simp add: scenarioExternals_def scenarioProxy_def scenarioRequest_def
        matchesExternalLabels_spec_def equalMatcher_def)
  have n: "[?m] \<noteq> []" by simp
  have sel: "selectStores ?s (Context scenarioServer) (MinTime (scenarioRequest [?m] d p))
      (MaxTime (scenarioRequest [?m] d p)) [?m] (stores ?s) ([], [], []) =
      ([replica ''g'' ''g-0''], [], [(''g'', [(''g-0'', 1)])])" for d p
    by (simp add: scenarioProxy_def scenarioRequest_def scenarioServer_def equalMatcher_def
        replica_def storeAt_def storeMatches_def storeDebugMatcher_def
        storeMatchDebugMetadata_def labelSetsMatch_def bumpCounter_def counter_def inner_def
        word_sless_alt)
  have ne: "[replica ''g'' ''g-0''] \<noteq> []" by simp
  have r: "scenarioRequest [?m] d p =
      (scenarioRequest [?m] d p)\<lparr>Matchers :=
         PromMatchersToMatchers ?ext [?m] @ MatchersForLabelSets ?ext []\<rparr>" for d p
    by (simp add: scenarioExternals_def scenarioRequest_def)
  have opened: "openStores ?ext scenarioServer (scenarioRequest [?m] d p)
      [(''g'', [(''g-0'', 1)])] [replica ''g'' ''g-0''] initState = (None, ?\<sigma>0)" for d p
    by (simp add: scenarioExternals_def initState_def)
  have first: "mergedResponses ?ext (storeResponses ?\<sigma>0) =
      [] @ WarningFrame ''slow'' # [WarningFrame ''late'']"
    by (simp add: scenarioExternals_def)
  have none: "streamLoop scenarioServer (scenarioRequest [?m] d p) [] ?\<sigma>0 = (None, ?\<sigma>0)"
    for d p by simp
  have second: "mergedResponses ?ext (storeResponses ?\<sigma>0) =
      [WarningFrame ''slow''] @ WarningFrame ''late'' # []"
    by (simp add: scenarioExternals_def)
  have one: "streamLoop scenarioServer (scenarioRequest [?m] False p) [WarningFrame ''slow''] ?\<sigma>0 =
      (None, ?\<sigma>0\<lparr>totalFailedStores := 1, sent := [WarningFrame ''slow'']\<rparr>)"
    if "p \<noteq> ABORT" for p
    using that by (cases p) (simp_all add: onWarning_def scenarioRequest_def scenarioServer_def)
  have gr: "GROUP_REPLICA \<noteq> ABORT" and wa: "WARN \<noteq> ABORT" by simp_all
  have slow: "GetWarning (WarningFrame ''slow'') \<noteq> []"
    and late: "GetWarning (WarningFrame ''late'') \<noteq> []" by simp_all
  show ?thesis
    using
      Series_warning_policy [OF m n sel ne r opened [of False ABORT] first none slow]
      Series_warning_policy [OF m n sel ne r opened [of True WARN] first none slow]
      Series_warning_policy [OF m n sel ne r opened second one [OF gr] late]
      Series_warning_policy [OF m n sel ne r opened second one [OF wa] late]
    by (simp add: scenarioRequest_def scenarioServer_def Let_def onWarning_def)
qed

text \<open>
  C2 as first stated asks for \<open>Aborted\<close> whenever the flag is set.  With the flag set
  under \<open>GROUP_REPLICA\<close> the first warning of the stream is forwarded and \<open>Series\<close>
  ends without error.
\<close>

theorem disabled_group_replica_warning_counterexample:
  "PartialResponseDisabled (scenarioRequest [equalMatcher ''a'' ''1''] True GROUP_REPLICA) \<and>
   GetWarning (WarningFrame ''slow'') \<noteq> [] \<and>
   Series (scenarioExternals (\<lambda>st. (Some [WarningFrame ''slow''], None)))
          (scenarioProxy [replica ''g'' ''g-0''] [])
          (scenarioRequest [equalMatcher ''a'' ''1''] True GROUP_REPLICA) scenarioServer =
     (None, \<lparr>failedStores = [], totalFailedStores = 1, storeResponses = [[WarningFrame ''slow'']],
             sent = [WarningFrame ''slow''], queried = [replica ''g'' ''g-0'']\<rparr>)"
  by (simp add: Series_def scenarioExternals_def scenarioProxy_def scenarioRequest_def
      scenarioServer_def equalMatcher_def matchesExternalLabels_spec_def replica_def storeAt_def
      storeMatches_def storeDebugMatcher_def storeMatchDebugMetadata_def
      labelSetsMatch_def initState_def bumpCounter_def counter_def inner_def
      onWarning_def word_sless_alt)

subsection \<open>Info\<close>

lemma timeRangeLoop_bounds:
  "timeRangeLoop sts (mn, mx) = (mn', mx') \<Longrightarrow>
     sint mn' \<le> sint mn \<and> (\<forall>st \<in> set sts. sint mn' \<le> sint (fst (TimeRange st))) \<and>
     (mn' = mn \<or> mn' \<in> (\<lambda>st. fst (TimeRange st)) ` set sts) \<and>
     sint mx \<le> sint mx' \<and> (\<forall>st \<in> set sts. sint (snd (TimeRange st)) \<le> sint mx') \<and>
     (mx' = mx \<or> mx' \<in> (\<lambda>st. snd (TimeRange st)) ` set sts)"
proof (induction sts arbitrary: mn mx)
  case Nil
  then show ?case by simp
next
  case (Cons st sts)
  obtain mint maxt where tr: "TimeRange st = (mint, maxt)" by (cases "TimeRange st")
  let ?mn = "if mint <s mn then mint else mn"
  let ?mx = "if mx <s maxt then maxt else mx"
  have step: "timeRangeLoop sts (?mn, ?mx) = (mn', mx')"
    using Cons.prems tr by simp
  have mn: "sint ?mn \<le> sint mn" "sint ?mn \<le> sint mint" "?mn = mn \<or> ?mn = mint"
    by (simp_all add: word_sless_alt)
  have mx: "sint mx \<le> sint ?mx" "sint maxt \<le> sint ?mx" "?mx = mx \<or> ?mx = maxt"
    by (simp_all add: word_sless_alt)
  note ih = Cons.IH [OF step]
  have 1: "sint mn' \<le> sint mn" using ih mn(1) by linarith
  have 2: "\<forall>b \<in> set (st # sts). sint mn' \<le> sint (fst (TimeRange b))"
    using ih mn(2) tr by auto
  have 3: "mn' = mn \<or> mn' \<in> (\<lambda>st. fst (TimeRange st)) ` set (st # sts)"
  proof -
    from ih have "mn' = ?mn \<or> mn' \<in> (\<lambda>st. fst (TimeRange st)) ` set sts" by blast
    moreover have "fst (TimeRange st) = mint" using tr by simp
    ultimately show ?thesis using mn(3) by auto
  qed
  have 4: "sint mx \<le> sint mx'" using ih mx(1) by linarith
  have 5: "\<forall>b \<in> set (st # sts). sint (snd (TimeRange b)) \<le> sint mx'"
    using ih mx(2) tr by auto
  have 6: "mx' = mx \<or> mx' \<in> (\<lambda>st. snd (TimeRange st)) ` set (st # sts)"
  proof -
    from ih have "mx' = ?mx \<or> mx' \<in> (\<lambda>st. snd (TimeRange st)) ` set sts" by blast
    moreover have "snd (TimeRange st) = maxt" using tr by simp
    ultimately show ?thesis using mx(3) by auto
  qed
  show ?case using 1 2 3 4 5 6 by blast
qed

lemma sint_le_MaxInt64: "sint (x :: int64) \<le> sint MaxInt64"
proof -
  have "sint x < 2 ^ 63" using sint_lt [of x] by simp
  moreover have "sint MaxInt64 = 2 ^ 63 - 1" by (simp add: MaxInt64_def)
  ultimately show ?thesis by simp
qed

lemma Info_MinTime:
  assumes "stores s \<noteq> []"
  shows "sint (InfoMinTime (Info hash s)) = Min ((\<lambda>st. sint (fst (TimeRange st))) ` set (stores s))"
proof -
  obtain mn mx where l: "timeRangeLoop (stores s) (MaxInt64, 0) = (mn, mx)"
    by (cases "timeRangeLoop (stores s) (MaxInt64, 0)")
  have r: "InfoMinTime (Info hash s) = mn"
    using assms l by (simp add: Info_def Let_def)
  note b = timeRangeLoop_bounds [OF l]
  have mem: "sint mn \<in> (\<lambda>st. sint (fst (TimeRange st))) ` set (stores s)"
  proof (cases "mn = MaxInt64")
    case True
    obtain st where st: "st \<in> set (stores s)" using assms by (cases "stores s") auto
    have "sint mn \<le> sint (fst (TimeRange st))" using b st by blast
    moreover have "sint (fst (TimeRange st)) \<le> sint mn" using True sint_le_MaxInt64 by simp
    ultimately have "sint mn = sint (fst (TimeRange st))" by simp
    then show ?thesis using st by blast
  next
    case False
    then show ?thesis using b by blast
  qed
  have "Min ((\<lambda>st. sint (fst (TimeRange st))) ` set (stores s)) = sint mn"
    by (rule Min_eqI) (use b mem in auto)
  then show ?thesis using r by simp
qed

lemma Info_MaxTime:
  assumes "stores s \<noteq> []" and "\<exists>st \<in> set (stores s). 0 \<le> sint (snd (TimeRange st))"
  shows "sint (InfoMaxTime (Info hash s)) = Max ((\<lambda>st. sint (snd (TimeRange st))) ` set (stores s))"
proof -
  obtain mn mx where l: "timeRangeLoop (stores s) (MaxInt64, 0) = (mn, mx)"
    by (cases "timeRangeLoop (stores s) (MaxInt64, 0)")
  have r: "InfoMaxTime (Info hash s) = mx"
    using assms l by (simp add: Info_def Let_def)
  note b = timeRangeLoop_bounds [OF l]
  have mem: "sint mx \<in> (\<lambda>st. sint (snd (TimeRange st))) ` set (stores s)"
  proof (cases "mx = 0")
    case True
    obtain st where st: "st \<in> set (stores s)" "0 \<le> sint (snd (TimeRange st))"
      using assms(2) by blast
    have "sint (snd (TimeRange st)) \<le> sint mx" using b st by blast
    then have "sint mx = sint (snd (TimeRange st))" using True st(2) by simp
    then show ?thesis using st by blast
  next
    case False
    then show ?thesis using b by blast
  qed
  have "Max ((\<lambda>st. sint (snd (TimeRange st))) ` set (stores s)) = sint mx"
    by (rule Max_eqI) (use b mem in auto)
  then show ?thesis using r by simp
qed

text \<open>
  The merge of a label set with the selector labels: a name the selector labels have
  carries the selector's value, any other name the value of the label set.
\<close>

lemma Get_filter:
  "Get ls n = (case filter (\<lambda>l. fst l = n) ls of [] \<Rightarrow> [] | l # _ \<Rightarrow> snd l)"
  by (induction ls) auto

lemma Has_iff: "Has ls n \<longleftrightarrow> n \<in> fst ` set ls"
  by (induction ls) auto

lemma filter_name_empty: "\<not> Has ls n \<Longrightarrow> filter (\<lambda>l. fst l = n) ls = []"
  by (induction ls) (auto split: if_splits)

lemma ExtendSortedLabels_Get:
  "Get (ExtendSortedLabels lset sel) n = (if Has sel n then Get sel n else Get lset n)"
proof -
  have "filter (\<lambda>l. fst l = n) (ExtendSortedLabels lset sel) =
      filter (\<lambda>l. fst l = n) (filter (\<lambda>l. \<not> Has sel (fst l)) lset @ sel)"
    unfolding ExtendSortedLabels_def by (rule sort_key_stable)
  also have "\<dots> = (if Has sel n then filter (\<lambda>l. fst l = n) sel else filter (\<lambda>l. fst l = n) lset)"
  proof (cases "Has sel n")
    case True
    have "filter (\<lambda>l. fst l = n) (filter (\<lambda>l. \<not> Has sel (fst l)) lset) = []"
      using True by (auto simp: filter_empty_conv)
    then show ?thesis using True by simp
  next
    case False
    have "filter (\<lambda>l. fst l = n) (filter (\<lambda>l. \<not> Has sel (fst l)) lset) = filter (\<lambda>l. fst l = n) lset"
      using False by (auto intro: filter_cong)
    then show ?thesis using False by (simp add: filter_name_empty)
  qed
  finally show ?thesis by (simp add: Get_filter)
qed

lemma ExtendSortedLabels_Has:
  "Has (ExtendSortedLabels lset sel) n \<longleftrightarrow> Has lset n \<or> Has sel n"
  by (auto simp: ExtendSortedLabels_def Has_iff)

lemma ExtendSortedLabels_sorted: "sorted (map fst (ExtendSortedLabels lset sel))"
  by (simp add: ExtendSortedLabels_def)

text \<open>
  The map of label sets: as long as the hash does not collide on the label sets, the
  values of the map are the label sets put into it; its keys are distinct, and so are
  its values.
\<close>

lemma update_hashed:
  assumes "hashed hash m" and "\<forall>v' \<in> snd ` set m. hash v' = hash v \<longrightarrow> v' = v"
  shows "hashed hash (AList.update (hash v) v m) \<and>
         snd ` set (AList.update (hash v) v m) = insert v (snd ` set m)"
  using assms by (induction m) (auto simp: hashed_def)

lemma mergeLabelSets_values:
  assumes "hashed hash m"
    and "inj_on hash (snd ` set m \<union> (\<lambda>l. ExtendSortedLabels l sel) ` set lsets)"
  shows "hashed hash (mergeLabelSets hash sel lsets m) \<and>
         snd ` set (mergeLabelSets hash sel lsets m) =
           snd ` set m \<union> (\<lambda>l. ExtendSortedLabels l sel) ` set lsets"
  using assms
proof (induction lsets arbitrary: m)
  case Nil
  then show ?case by simp
next
  case (Cons lset lsets)
  let ?v = "ExtendSortedLabels lset sel"
  let ?m = "AList.update (hash ?v) ?v m"
  have "\<forall>v' \<in> snd ` set m. hash v' = hash ?v \<longrightarrow> v' = ?v"
  proof (intro ballI impI)
    fix v' assume a: "v' \<in> snd ` set m" "hash v' = hash ?v"
    have "?v \<in> (\<lambda>l. ExtendSortedLabels l sel) ` set (lset # lsets)" by simp
    then show "v' = ?v"
      using inj_onD [OF Cons.prems(2) a(2)] a(1) by blast
  qed
  then have u: "hashed hash ?m" "snd ` set ?m = insert ?v (snd ` set m)"
    using update_hashed [OF Cons.prems(1)] by blast+
  have inj: "inj_on hash (snd ` set ?m \<union> (\<lambda>l. ExtendSortedLabels l sel) ` set lsets)"
    by (rule inj_on_subset [OF Cons.prems(2)]) (use u(2) in auto)
  show ?case
    using Cons.IH [OF u(1) inj] u(2) by (auto simp: Let_def)
qed

lemma storesLabelSets_values:
  assumes "hashed hash m" and "inj_on hash (snd ` set m \<union> announced sts sel)"
  shows "hashed hash (storesLabelSets hash sel sts m) \<and>
         snd ` set (storesLabelSets hash sel sts m) = snd ` set m \<union> announced sts sel"
  using assms
proof (induction sts arbitrary: m)
  case Nil
  then show ?case by (simp add: announced_def)
next
  case (Cons st sts)
  let ?m = "mergeLabelSets hash sel (LabelSets st) m"
  have split: "announced (st # sts) sel =
      (\<lambda>l. ExtendSortedLabels l sel) ` set (LabelSets st) \<union> announced sts sel"
    by (auto simp: announced_def)
  have inj1: "inj_on hash (snd ` set m \<union> (\<lambda>l. ExtendSortedLabels l sel) ` set (LabelSets st))"
    using Cons.prems(2) unfolding split by (rule inj_on_subset) auto
  note m1 = mergeLabelSets_values [OF Cons.prems(1) inj1]
  have inj2: "inj_on hash (snd ` set ?m \<union> announced sts sel)"
    using Cons.prems(2) m1 unfolding split by (simp add: Un_assoc)
  show ?case
    using Cons.IH [OF conjunct1 [OF m1] inj2] m1 unfolding split by (simp add: Un_assoc)
qed

lemma Info_LabelSets:
  assumes "stores s \<noteq> []" and "inj_on hash (announced (stores s) (selectorLabels s))"
  shows "set (InfoLabelSets (Info hash s)) =
     (if announced (stores s) (selectorLabels s) = {} \<and> selectorLabels s \<noteq> []
      then {selectorLabels s} else announced (stores s) (selectorLabels s))"
proof -
  obtain mn mx where l: "timeRangeLoop (stores s) (MaxInt64, 0) = (mn, mx)"
    by (cases "timeRangeLoop (stores s) (MaxInt64, 0)")
  have h: "hashed hash []" by (simp add: hashed_def)
  have v: "snd ` set (storesLabelSets hash (selectorLabels s) (stores s) []) =
      announced (stores s) (selectorLabels s)"
    using storesLabelSets_values [OF h, of "stores s" "selectorLabels s"] assms(2) by simp
  show ?thesis
    using assms(1) l v by (auto simp: Info_def Let_def)
qed

lemma update_keeps_hashed:
  "hashed hash m \<Longrightarrow> hashed hash (AList.update (hash v) v m)"
  by (induction m) (auto simp: hashed_def)

lemma update_keeps:
  "hashed hash m \<Longrightarrow> distinct (map fst m) \<Longrightarrow>
     hashed hash (AList.update (hash v) v m) \<and> distinct (map fst (AList.update (hash v) v m))"
  by (simp add: update_keeps_hashed distinct_update)

lemma mergeLabelSets_keeps:
  "hashed hash m \<Longrightarrow> distinct (map fst m) \<Longrightarrow>
     hashed hash (mergeLabelSets hash sel lsets m) \<and>
     distinct (map fst (mergeLabelSets hash sel lsets m))"
proof (induction lsets arbitrary: m)
  case Nil
  then show ?case by simp
next
  case (Cons lset lsets)
  show ?case
    using Cons.IH update_keeps [OF Cons.prems] by (simp add: Let_def)
qed

lemma storesLabelSets_keeps:
  "hashed hash m \<Longrightarrow> distinct (map fst m) \<Longrightarrow>
     hashed hash (storesLabelSets hash sel sts m) \<and>
     distinct (map fst (storesLabelSets hash sel sts m))"
proof (induction sts arbitrary: m)
  case Nil
  then show ?case by simp
next
  case (Cons st sts)
  show ?case
    using Cons.IH mergeLabelSets_keeps [OF Cons.prems] by simp
qed

lemma hashed_keys: "hashed hash m \<Longrightarrow> map fst m = map hash (map snd m)"
  by (induction m) (auto simp: hashed_def)

lemma Info_LabelSets_distinct: "distinct (InfoLabelSets (Info hash s))"
proof (cases "stores s = []")
  case True
  then show ?thesis by (simp add: Info_def)
next
  case False
  obtain mn mx where l: "timeRangeLoop (stores s) (MaxInt64, 0) = (mn, mx)"
    by (cases "timeRangeLoop (stores s) (MaxInt64, 0)")
  let ?m = "storesLabelSets hash (selectorLabels s) (stores s) []"
  have "hashed hash ?m \<and> distinct (map fst ?m)"
    by (rule storesLabelSets_keeps) (simp_all add: hashed_def)
  then have "distinct (map hash (map snd ?m))"
    using hashed_keys by metis
  then have d: "distinct (map snd ?m)"
    using distinct_map [of hash "map snd ?m"] by blast
  show ?thesis
    using False l d by (simp add: Info_def Let_def)
qed

lemma Info_selector_only:
  assumes "stores s \<noteq> []" and "announced (stores s) (selectorLabels s) = {}"
    and "selectorLabels s \<noteq> []"
  shows "InfoLabelSets (Info hash s) = [selectorLabels s]"
proof -
  obtain mn mx where l: "timeRangeLoop (stores s) (MaxInt64, 0) = (mn, mx)"
    by (cases "timeRangeLoop (stores s) (MaxInt64, 0)")
  have h: "hashed hash []" by (simp add: hashed_def)
  have "snd ` set (storesLabelSets hash (selectorLabels s) (stores s) []) = {}"
    using storesLabelSets_values [OF h, of "stores s" "selectorLabels s"] assms(2) by simp
  then have "storesLabelSets hash (selectorLabels s) (stores s) [] = []" by simp
  then show ?thesis
    using assms(1,3) l by (simp add: Info_def Let_def)
qed

text \<open>
  C9, as amended.  For the empty snapshot \<open>Info\<close> returns the time range 0 to 0 and
  announces no label set.  For a snapshot that is not empty, its minimum time is the
  minimum of the stores' minimum times; its maximum time is the maximum of the stores'
  maximum times when one of them is not negative; the label sets it announces are, as a
  set and as long as the hash does not collide on them, the label sets of the stores
  each merged with the selector labels, or the selector labels alone, as the single
  label set, when the stores announce none and the selector labels are not empty.  No
  label set is announced twice, and in a merged label set the selector's value wins.
\<close>

theorem Info_aggregates:
  "(stores s = [] \<longrightarrow>
      InfoMinTime (Info hash s) = 0 \<and> InfoMaxTime (Info hash s) = 0 \<and>
      InfoLabelSets (Info hash s) = []) \<and>
   (stores s \<noteq> [] \<longrightarrow>
      sint (InfoMinTime (Info hash s)) =
        Min ((\<lambda>st. sint (fst (TimeRange st))) ` set (stores s)) \<and>
      ((\<exists>st \<in> set (stores s). 0 \<le> sint (snd (TimeRange st))) \<longrightarrow>
         sint (InfoMaxTime (Info hash s)) =
           Max ((\<lambda>st. sint (snd (TimeRange st))) ` set (stores s))) \<and>
      (inj_on hash (announced (stores s) (selectorLabels s)) \<longrightarrow>
         set (InfoLabelSets (Info hash s)) =
           (if announced (stores s) (selectorLabels s) = {} \<and> selectorLabels s \<noteq> []
            then {selectorLabels s} else announced (stores s) (selectorLabels s))) \<and>
      (announced (stores s) (selectorLabels s) = {} \<and> selectorLabels s \<noteq> [] \<longrightarrow>
         InfoLabelSets (Info hash s) = [selectorLabels s])) \<and>
   distinct (InfoLabelSets (Info hash s)) \<and>
   (\<forall>lset n. Get (ExtendSortedLabels lset (selectorLabels s)) n =
      (if Has (selectorLabels s) n then Get (selectorLabels s) n else Get lset n))"
proof -
  have a: "stores s = [] \<longrightarrow>
      InfoMinTime (Info hash s) = 0 \<and> InfoMaxTime (Info hash s) = 0 \<and>
      InfoLabelSets (Info hash s) = []"
    by (simp add: Info_def)
  show ?thesis
    using a Info_MinTime [of s hash] Info_MaxTime [of s hash] Info_LabelSets [of s hash]
      Info_selector_only [of s hash] Info_LabelSets_distinct [of hash s]
      ExtendSortedLabels_Get [of _ "selectorLabels s"]
    by blast
qed

text \<open>
  Scenario S5: stores with the ranges 100 to 200 and 150 to 300 and no label set, under
  the selector labels \<open>r = x\<close>, give the range 100 to 300 and the one label set
  \<open>r = x\<close>.  A store with the label sets \<open>zone = a\<close> and \<open>env = p, r = y, zone = b\<close>
  gives both, each with \<open>r = x\<close>.
\<close>

theorem Info_aggregates_witness:
  "sint (InfoMinTime (Info lengthHash
      (scenarioProxy [storeWith ''a'' (100, 200) [], storeWith ''b'' (150, 300) []]
         [(''r'', ''x'')]))) = 100 \<and>
   sint (InfoMaxTime (Info lengthHash
      (scenarioProxy [storeWith ''a'' (100, 200) [], storeWith ''b'' (150, 300) []]
         [(''r'', ''x'')]))) = 300 \<and>
   InfoLabelSets (Info lengthHash
      (scenarioProxy [storeWith ''a'' (100, 200) [], storeWith ''b'' (150, 300) []]
         [(''r'', ''x'')])) = [[(''r'', ''x'')]] \<and>
   set (InfoLabelSets (Info lengthHash
      (scenarioProxy
         [storeWith ''c'' (0, 10)
            [[(''zone'', ''a'')], [(''env'', ''p''), (''r'', ''y''), (''zone'', ''b'')]]]
         [(''r'', ''x'')]))) =
     {[(''r'', ''x''), (''zone'', ''a'')], [(''env'', ''p''), (''r'', ''x''), (''zone'', ''b'')]}"
proof -
  let ?P = "scenarioProxy [storeWith ''a'' (100, 200) [], storeWith ''b'' (150, 300) []]
         [(''r'', ''x'')]"
  let ?Q = "scenarioProxy
         [storeWith ''c'' (0, 10)
            [[(''zone'', ''a'')], [(''env'', ''p''), (''r'', ''y''), (''zone'', ''b'')]]]
         [(''r'', ''x'')]"
  have p: "stores ?P \<noteq> []" "\<exists>st \<in> set (stores ?P). 0 \<le> sint (snd (TimeRange st))"
    "announced (stores ?P) (selectorLabels ?P) = {}" "selectorLabels ?P \<noteq> []"
    "(\<lambda>st. sint (fst (TimeRange st))) ` set (stores ?P) = {100, 150}"
    "(\<lambda>st. sint (snd (TimeRange st))) ` set (stores ?P) = {200, 300}"
    by (simp_all add: scenarioProxy_def storeWith_def storeAt_def announced_def)
  have q: "stores ?Q \<noteq> []" "selectorLabels ?Q \<noteq> []"
    by (simp_all add: scenarioProxy_def)
  have a: "announced (stores ?Q) (selectorLabels ?Q) =
      {[(''r'', ''x''), (''zone'', ''a'')], [(''env'', ''p''), (''r'', ''x''), (''zone'', ''b'')]}"
    by (simp add: scenarioProxy_def storeWith_def storeAt_def announced_def
        ExtendSortedLabels_def)
  have i: "inj_on lengthHash (announced (stores ?Q) (selectorLabels ?Q))"
    unfolding a by (simp add: lengthHash_def)
  have sl: "selectorLabels ?P = [(''r'', ''x'')]" "selectorLabels ?Q = [(''r'', ''x'')]"
    by (simp_all add: scenarioProxy_def)
  note P = Info_aggregates [of ?P lengthHash, THEN conjunct2, THEN conjunct1, rule_format, OF p(1)]
  note Q = Info_aggregates [of ?Q lengthHash, THEN conjunct2, THEN conjunct1, rule_format, OF q(1)]
  have 1: "sint (InfoMinTime (Info lengthHash ?P)) = 100"
    using P p(5) by simp
  have 2: "sint (InfoMaxTime (Info lengthHash ?P)) = 300"
    using P p(2,6) by simp
  have 3: "InfoLabelSets (Info lengthHash ?P) = [[(''r'', ''x'')]]"
    using P p(3,4) sl(1) by simp
  have 4: "set (InfoLabelSets (Info lengthHash ?Q)) =
      {[(''r'', ''x''), (''zone'', ''a'')], [(''env'', ''p''), (''r'', ''x''), (''zone'', ''b'')]}"
    using Q i unfolding a by simp
  show ?thesis using 1 2 3 4 by blast
qed

text \<open>
  C9 as first stated announces the selector labels whenever the union is empty and they
  are not, and takes the maximum of the maximum times.  For the empty snapshot under
  the selector labels \<open>r = x\<close> \<open>Info\<close> announces no label set; for one store with
  the range -100 to -50 it returns the maximum time 0.
\<close>

theorem Info_empty_snapshot_counterexample:
  "selectorLabels (scenarioProxy [] [(''r'', ''x'')]) \<noteq> [] \<and>
   InfoLabelSets (Info lengthHash (scenarioProxy [] [(''r'', ''x'')])) = [] \<and>
   sint (snd (TimeRange (storeWith ''old'' (- 100, - 50) []))) = - 50 \<and>
   sint (InfoMaxTime (Info lengthHash (scenarioProxy [storeWith ''old'' (- 100, - 50) []] []))) = 0"
  by (simp add: Info_def scenarioProxy_def storeWith_def storeAt_def MaxInt64_def word_sless_alt)

subsection \<open>LabelValues\<close>

text \<open>
  C10.  A \<open>LabelValues\<close> request whose label name is the empty string is answered
  with an \<open>InvalidArgument\<close> status at once: no snapshot of the stores is taken
  and no store is called.
\<close>

theorem LabelValues_empty_label:
  "Label r = [] \<Longrightarrow>
     LabelValues ext s ctx r =
       \<lparr>response = None,
        failure = Some (StatusError InvalidArgument ''label name parameter cannot be empty''),
        snapshots = 0, called = []\<rparr>"
  by (simp add: LabelValues_def)

text \<open>
  The empty label name is refused without a call; the label name \<open>job\<close> reaches the
  store of the snapshot.
\<close>

theorem LabelValues_empty_label_witness:
  "failure (LabelValues scenarioLabelValues (scenarioProxy [storeAt ''a'' False] [])
          \<lparr>StoreMatcherKey = None\<rparr>
          \<lparr>Label = [], LabelValuesPartialResponseDisabled = False, Start = 0, End = 100,
           LabelValuesMatchers = []\<rparr>) =
     Some (StatusError InvalidArgument ''label name parameter cannot be empty'') \<and>
   called (LabelValues scenarioLabelValues (scenarioProxy [storeAt ''a'' False] [])
          \<lparr>StoreMatcherKey = None\<rparr>
          \<lparr>Label = [], LabelValuesPartialResponseDisabled = False, Start = 0, End = 100,
           LabelValuesMatchers = []\<rparr>) = [] \<and>
   snapshots (LabelValues scenarioLabelValues (scenarioProxy [storeAt ''a'' False] [])
          \<lparr>StoreMatcherKey = None\<rparr>
          \<lparr>Label = [], LabelValuesPartialResponseDisabled = False, Start = 0, End = 100,
           LabelValuesMatchers = []\<rparr>) = 0 \<and>
   called (LabelValues scenarioLabelValues (scenarioProxy [storeAt ''a'' False] [])
          \<lparr>StoreMatcherKey = None\<rparr>
          \<lparr>Label = ''job'', LabelValuesPartialResponseDisabled = False, Start = 0, End = 100,
           LabelValuesMatchers = []\<rparr>) = [storeAt ''a'' False]"
proof -
  have e: "Label \<lparr>Label = [], LabelValuesPartialResponseDisabled = False, Start = 0, End = 100,
           LabelValuesMatchers = []\<rparr> = []" by simp
  have c: "called (LabelValues scenarioLabelValues (scenarioProxy [storeAt ''a'' False] [])
          \<lparr>StoreMatcherKey = None\<rparr>
          \<lparr>Label = ''job'', LabelValuesPartialResponseDisabled = False, Start = 0, End = 100,
           LabelValuesMatchers = []\<rparr>) = [storeAt ''a'' False]"
    by (simp add: LabelValues_def scenarioLabelValues_def scenarioProxy_def storeAt_def
        storeMatches_def storeDebugMatcher_def storeMatchDebugMetadata_def labelSetsMatch_def
        word_sless_alt)
  show ?thesis
    using LabelValues_empty_label [OF e, of scenarioLabelValues
        "scenarioProxy [storeAt ''a'' False] []" "\<lparr>StoreMatcherKey = None\<rparr>"] c
    by simp
qed

end
